theory Spec2Isabelle
  imports Complex_Main "HOL-Library.Multiset" "HOL-Library.List_Lexorder" "HOL-Library.Char_ord"
begin

section \<open>Numbers\<close>

text \<open>
  The REAL columns of the schema and the Python floats of \<^verbatim>\<open>database.py\<close> are IEEE
  binary64 values. A finite binary64 value is a rational number, so the model keeps
  numbers as \<^typ>\<open>rat\<close> and rounds the exact result of every arithmetic operation to
  the nearest binary64 value, ties to the even significand, as the hardware does
  (\<open>fl\<close>). Subnormal results are covered (the exponent is clamped at \<open>-1022\<close>).
  Infinities and NaN are not values of the model: every result is taken to lie in
  the finite binary64 range.
\<close>

function bit_length :: "int \<Rightarrow> nat" where
  "bit_length n = (if n \<le> 0 then 0 else Suc (bit_length (n div 2)))"
  by pat_completeness auto
termination
  by (relation "measure nat") auto

declare bit_length.simps [simp del]

definition pow2 :: "int \<Rightarrow> rat" where
  "pow2 k = (if 0 \<le> k then 2 ^ nat k else 1 / 2 ^ nat (- k))"

definition round_half_even :: "rat \<Rightarrow> int" where
  "round_half_even x =
     (let f = \<lfloor>x\<rfloor>; d = x - of_int f
      in if d < 1 / 2 then f else if 1 / 2 < d then f + 1 else if even f then f else f + 1)"

definition ilog2 :: "rat \<Rightarrow> int" where
  \<comment> \<open>the integer \<open>e\<close> with \<open>2 ^ e \<le> x < 2 ^ (e + 1)\<close>, for \<open>0 < x\<close>\<close>
  "ilog2 x = (if 1 \<le> x then int (bit_length \<lfloor>x\<rfloor>) - 1
              else - int (bit_length (\<lceil>1 / x\<rceil> - 1)))"

definition fl :: "rat \<Rightarrow> rat" where
  "fl x = (if x = 0 then 0
           else let a = \<bar>x\<bar>; e = max (ilog2 a) (- 1022); u = pow2 (e - 52)
                in sgn x * of_int (round_half_even (a / u)) * u)"

definition fmul :: "rat \<Rightarrow> rat \<Rightarrow> rat" where
  "fmul a b = fl (a * b)"

definition fadd :: "rat \<Rightarrow> rat \<Rightarrow> rat" where
  "fadd a b = fl (a + b)"

definition fsub :: "rat \<Rightarrow> rat \<Rightarrow> rat" where
  "fsub a b = fl (a - b)"

definition nearest_float :: "int \<Rightarrow> rat" where
  \<comment> \<open>the binary64 value nearest to an integer, ties to even, with no bound on the
      exponent\<close>
  "nearest_float n = fl (of_int n)"

definition py_round2 :: "rat \<Rightarrow> rat" where
  \<comment> \<open>Python's \<^verbatim>\<open>round(x, 2)\<close> on a float: the exact value is rounded to two decimals,
      ties to even, and the decimal result is read back as the nearest float\<close>
  "py_round2 x = fl (of_int (round_half_even (x * 100)) / 100)"

definition vatRate :: rat where
  "vatRate = fl (21 / 100)"

section \<open>Tables\<close>

text \<open>
  One record per table of \<^verbatim>\<open>init_db\<close>; the field prefixes are the aliases the queries
  of the source use (\<open>si\<close>, \<open>m\<close>, \<open>di\<close>, \<open>o\<close>, \<open>oi\<close>). A table is the list of its rows in
  insertion order. The \<open>seq\<close> fields are the rows of \<^verbatim>\<open>sqlite_sequence\<close> that
  AUTOINCREMENT keeps, one per table.
\<close>

record stock_row =
  si_id :: int
  si_ingredient_name :: string
  si_quantity_in_stock :: rat
  si_unit :: string

record menu_row =
  m_id :: int
  m_dish_name :: string
  m_dish_price :: rat

record recipe_row =
  di_id :: int
  di_menu_id :: int
  di_ingredient_id :: int
  di_quantity_needed :: rat

record order_row =
  o_id :: int
  o_order_date :: string
  o_subtotal :: rat
  o_vat_rate :: rat
  o_vat_amount :: rat
  o_total :: rat

record item_row =
  oi_id :: int
  oi_order_id :: int
  oi_dish_id :: int
  oi_quantity :: int
  oi_line_price :: rat

record db =
  stock_inventory :: "stock_row list"
  menu_inventory :: "menu_row list"
  dish_ingredients :: "recipe_row list"
  orders :: "order_row list"
  order_items :: "item_row list"
  seq_stock_inventory :: int
  seq_menu_inventory :: int
  seq_dish_ingredients :: int
  seq_orders :: int
  seq_order_items :: int

section \<open>Outcomes\<close>

text \<open>
  The messages the operations return and the exceptions that sqlite3 and Python raise.
  \<open>Str_of e\<close> is \<^verbatim>\<open>str(e)\<close> for an exception that carries no message of the program.
  Python's \<^verbatim>\<open>OverflowError\<close> is raised at two kinds of places with two messages:
  \<open>OverflowError\<close> is the one of sqlite3 when an int does not fit a statement
  (\<^verbatim>\<open>Python int too large to convert to SQLite INTEGER\<close>), \<open>OverflowError_float\<close> the
  one of \<^verbatim>\<open>float * int\<close> (\<^verbatim>\<open>int too large to convert to float\<close>).
\<close>

datatype msg =
    Quantity_must_be_greater_than_0
  | Unit_must_be_one_of_allowed
  | Ingredient_added
  | Ingredient_already_exists
  | Ingredient_updated
  | Ingredient_not_found
  | Ingredient_deleted
  | Ingredient_id_not_found int
  | Price_must_be_greater_than_0
  | Dish_created string
  | Dish_already_exists
  | Invalid_unit_for string
  | Quantity_needed_must_be_greater_than_0_for string
  | Unit_mismatch string string string
  | Dish_updated
  | Dish_deleted
  | Dish_not_found
  | Quantity_must_be_ge_1
  | Dish_id_not_found int
  | Dish_has_no_ingredients string
  | Not_enough string rat string rat
  | Str_of exn
and exn =
    IntegrityError
  | ProgrammingError
  | OverflowError
  | OverflowError_float
  | KeyError
  | TypeError
  | ValueError msg

fun str :: "exn \<Rightarrow> msg" where
  "str (ValueError m) = m"
| "str e = Str_of e"

text \<open>
  \<^verbatim>\<open>float * int\<close> converts the int to a float first. The conversion rounds to the
  nearest float and raises \<^verbatim>\<open>OverflowError\<close> when the rounded value is not below
  \<open>2 ^ 1024\<close> in magnitude, that is, for an int of magnitude \<open>2 ^ 1024 - 2 ^ 970\<close> or more.
\<close>

definition float_of_int :: "int \<Rightarrow> exn + rat" where
  "float_of_int n =
     (if 2 ^ 1024 \<le> \<bar>nearest_float n\<bar> then Inl OverflowError_float else Inr (nearest_float n))"

definition fmul_int :: "rat \<Rightarrow> int \<Rightarrow> exn + rat" where
  \<comment> \<open>\<^verbatim>\<open>x * n\<close> for a float \<open>x\<close> and an int \<open>n\<close>\<close>
  "fmul_int x n = (case float_of_int n of Inl e \<Rightarrow> Inl e | Inr y \<Rightarrow> Inr (fmul x y))"

section \<open>SQL statements\<close>

definition sqlite_int :: "int \<Rightarrow> bool" where
  \<comment> \<open>a Python int binds to a statement only if it fits 64 bits; otherwise sqlite3
      raises OverflowError\<close>
  "sqlite_int n \<longleftrightarrow> - (2 ^ 63) \<le> n \<and> n < 2 ^ 63"

definition next_rowid :: "int \<Rightarrow> int list \<Rightarrow> int" where
  \<comment> \<open>AUTOINCREMENT: one more than the largest rowid the table has ever held\<close>
  "next_rowid seq ids = max seq (fold max ids 0) + 1"

definition select_dish :: "db \<Rightarrow> int \<Rightarrow> exn + menu_row option" where
  \<comment> \<open>\<^verbatim>\<open>SELECT id, dish_name, dish_price FROM menu_inventory WHERE id = ?\<close>, fetchone\<close>
  "select_dish conn dish_id =
     (if \<not> sqlite_int dish_id then Inl OverflowError
      else Inr (find (\<lambda>m. m_id m = dish_id) (menu_inventory conn)))"

definition join_recipe :: "db \<Rightarrow> recipe_row list \<Rightarrow> (recipe_row \<times> stock_row) list" where
  \<comment> \<open>\<^verbatim>\<open>dish_ingredients di JOIN stock_inventory si ON si.id = di.ingredient_id\<close>\<close>
  "join_recipe conn dis =
     concat (map (\<lambda>di. map (\<lambda>si. (di, si))
                          (filter (\<lambda>si. si_id si = di_ingredient_id di) (stock_inventory conn)))
                 dis)"

definition select_recipe :: "db \<Rightarrow> int \<Rightarrow> exn + (recipe_row \<times> stock_row) list" where
  \<comment> \<open>the join above \<^verbatim>\<open>WHERE di.menu_id = ?\<close>, fetchall\<close>
  "select_recipe conn dish_id =
     (if \<not> sqlite_int dish_id then Inl OverflowError
      else Inr (join_recipe conn (filter (\<lambda>di. di_menu_id di = dish_id) (dish_ingredients conn))))"

definition insert_order :: "string \<Rightarrow> rat \<Rightarrow> rat \<Rightarrow> rat \<Rightarrow> rat \<Rightarrow> db \<Rightarrow> int \<times> db" where
  \<comment> \<open>\<^verbatim>\<open>INSERT INTO orders (subtotal, vat_rate, vat_amount, total)\<close>; \<open>now\<close> is the
      CURRENT_TIMESTAMP default of \<open>order_date\<close>; returns \<^verbatim>\<open>lastrowid\<close>\<close>
  "insert_order now sub rate vat tot conn =
     (let rid = next_rowid (seq_orders conn) (map o_id (orders conn))
      in (rid, conn\<lparr>orders := orders conn @
                     [\<lparr>o_id = rid, o_order_date = now, o_subtotal = sub, o_vat_rate = rate,
                       o_vat_amount = vat, o_total = tot\<rparr>],
                   seq_orders := rid\<rparr>))"

definition insert_order_item :: "int \<Rightarrow> int \<Rightarrow> int \<Rightarrow> rat \<Rightarrow> db \<Rightarrow> exn + db" where
  \<comment> \<open>\<^verbatim>\<open>INSERT INTO order_items (order_id, dish_id, quantity, line_price)\<close> with the two
      foreign keys of the table\<close>
  "insert_order_item oid did qty price conn =
     (if \<not> (sqlite_int oid \<and> sqlite_int did \<and> sqlite_int qty) then Inl OverflowError
      else if oid \<notin> o_id ` set (orders conn) \<or> did \<notin> m_id ` set (menu_inventory conn)
      then Inl IntegrityError
      else let rid = next_rowid (seq_order_items conn) (map oi_id (order_items conn))
           in Inr (conn\<lparr>order_items := order_items conn @
                          [\<lparr>oi_id = rid, oi_order_id = oid, oi_dish_id = did, oi_quantity = qty,
                            oi_line_price = price\<rparr>],
                        seq_order_items := rid\<rparr>))"

definition update_stock :: "rat \<Rightarrow> int \<Rightarrow> db \<Rightarrow> db" where
  \<comment> \<open>\<^verbatim>\<open>UPDATE stock_inventory SET quantity_in_stock = ? WHERE id = ?\<close>\<close>
  "update_stock new_stock iid conn =
     conn\<lparr>stock_inventory :=
            map (\<lambda>si. if si_id si = iid then si\<lparr>si_quantity_in_stock := new_stock\<rparr> else si)
                (stock_inventory conn)\<rparr>"

section \<open>The order engine\<close>

text \<open>
  A basket is the list \<open>items\<close> of \<^verbatim>\<open>create_order\<close>: one pair (dish id, quantity) per
  line, both Python ints. \<open>needs\<close> is an insertion-ordered dictionary, kept as an
  association list with one entry per key.
\<close>

record need_info =
  n_name :: string
  n_unit :: string
  n_needed :: rat
  n_stock :: rat

fun validate_items ::
  "db \<Rightarrow> (int \<times> int) list \<Rightarrow> (int \<rightharpoonup> string \<times> rat) \<Rightarrow> rat \<Rightarrow> msg + (int \<rightharpoonup> string \<times> rat) \<times> rat" where
  "validate_items conn [] dish_map subtotal = Inr (dish_map, subtotal)"
| "validate_items conn ((dish_id, qty) # its) dish_map subtotal =
     (if qty \<le> 0 then Inl Quantity_must_be_ge_1
      else case select_dish conn dish_id of
             Inl e \<Rightarrow> Inl (str e)
           | Inr None \<Rightarrow> Inl (Dish_id_not_found dish_id)
           | Inr (Some row) \<Rightarrow>
               (case fmul_int (m_dish_price row) qty of
                  Inl e \<Rightarrow> Inl (str e)
                | Inr amount \<Rightarrow>
                    validate_items conn its
                      (dish_map(dish_id \<mapsto> (m_dish_name row, m_dish_price row)))
                      (fadd subtotal amount)))"

definition add_need ::
  "rat \<Rightarrow> (int \<times> need_info) list \<Rightarrow> recipe_row \<times> stock_row \<Rightarrow> (int \<times> need_info) list" where
  \<comment> \<open>the update of \<open>needs\<close> for one recipe row, once \<open>tot_needed\<close> is computed\<close>
  "add_need tot_needed needs r =
     (let iid = di_ingredient_id (fst r)
      in if iid \<in> fst ` set needs
         then map (\<lambda>(k, info). if k = iid
                                then (k, info\<lparr>n_needed := fadd (n_needed info) tot_needed\<rparr>)
                                else (k, info)) needs
         else needs @ [(iid, \<lparr>n_name = si_ingredient_name (snd r), n_unit = si_unit (snd r),
                               n_needed = tot_needed, n_stock = si_quantity_in_stock (snd r)\<rparr>)])"

fun add_needs ::
  "int \<Rightarrow> (recipe_row \<times> stock_row) list \<Rightarrow> (int \<times> need_info) list
   \<Rightarrow> exn + (int \<times> need_info) list" where
  \<comment> \<open>the loop \<^verbatim>\<open>for r in ing_rows\<close>\<close>
  "add_needs qty [] needs = Inr needs"
| "add_needs qty (r # ing_rows) needs =
     (case fmul_int (di_quantity_needed (fst r)) qty of
        Inl e \<Rightarrow> Inl e
      | Inr tot_needed \<Rightarrow> add_needs qty ing_rows (add_need tot_needed needs r))"

fun accumulate_needs ::
  "db \<Rightarrow> (int \<rightharpoonup> string \<times> rat) \<Rightarrow> (int \<times> int) list \<Rightarrow> (int \<times> need_info) list
   \<Rightarrow> msg + (int \<times> need_info) list" where
  "accumulate_needs conn dish_map [] needs = Inr needs"
| "accumulate_needs conn dish_map ((dish_id, qty) # its) needs =
     (case select_recipe conn dish_id of
        Inl e \<Rightarrow> Inl (str e)
      | Inr ing_rows \<Rightarrow>
          if ing_rows = []
          then (case dish_map dish_id of
                  None \<Rightarrow> Inl (str KeyError)
                | Some d \<Rightarrow> Inl (Dish_has_no_ingredients (fst d)))
          else (case add_needs qty ing_rows needs of
                  Inl e \<Rightarrow> Inl (str e)
                | Inr needs' \<Rightarrow> accumulate_needs conn dish_map its needs'))"

definition check_stock :: "(int \<times> need_info) list \<Rightarrow> msg option" where
  "check_stock needs =
     (case find (\<lambda>kv. n_stock (snd kv) < n_needed (snd kv)) needs of
        None \<Rightarrow> None
      | Some kv \<Rightarrow> Some (Not_enough (n_name (snd kv)) (n_needed (snd kv)) (n_unit (snd kv))
                                     (n_stock (snd kv))))"

fun insert_order_items ::
  "int \<Rightarrow> (int \<rightharpoonup> string \<times> rat) \<Rightarrow> (int \<times> int) list \<Rightarrow> db \<Rightarrow> exn + db" where
  "insert_order_items order_id dish_map [] conn = Inr conn"
| "insert_order_items order_id dish_map ((dish_id, qty) # its) conn =
     (case dish_map dish_id of
        None \<Rightarrow> Inl KeyError
      | Some d \<Rightarrow>
          (case fmul_int (snd d) qty of
             Inl e \<Rightarrow> Inl e
           | Inr amount \<Rightarrow>
               (case insert_order_item order_id dish_id qty (py_round2 amount) conn of
                  Inl e \<Rightarrow> Inl e
                | Inr conn' \<Rightarrow> insert_order_items order_id dish_map its conn')))"

definition subtract_stock :: "(int \<times> need_info) list \<Rightarrow> db \<Rightarrow> db" where
  "subtract_stock needs conn =
     fold (\<lambda>kv. update_stock (fsub (n_stock (snd kv)) (n_needed (snd kv))) (fst kv)) needs conn"

definition commit_order ::
  "string \<Rightarrow> rat \<Rightarrow> rat \<Rightarrow> rat \<Rightarrow> (int \<rightharpoonup> string \<times> rat) \<Rightarrow> (int \<times> int) list
   \<Rightarrow> (int \<times> need_info) list \<Rightarrow> db \<Rightarrow> exn + int \<times> db" where
  \<comment> \<open>the body of \<^verbatim>\<open>with conn:\<close>; an exception leaves the block before the commit\<close>
  "commit_order now subtotal vat_amount tot dish_map items needs conn =
     (case insert_order now (py_round2 subtotal) vatRate vat_amount tot conn of
        (order_id, c1) \<Rightarrow>
          (case insert_order_items order_id dish_map items c1 of
             Inl e \<Rightarrow> Inl e
           | Inr c2 \<Rightarrow> Inr (order_id, subtract_stock needs c2)))"

definition create_order :: "string \<Rightarrow> (int \<times> int) list \<Rightarrow> db \<Rightarrow> (msg + int) \<times> db" where
  \<comment> \<open>\<open>Inl m\<close> is the return value \<^verbatim>\<open>(False, m)\<close>, \<open>Inr order_id\<close> is \<^verbatim>\<open>(True, order_id)\<close>;
      the second component is the database the call leaves behind. The transaction
      of \<^verbatim>\<open>with conn:\<close> is rolled back when its body raises, so the database of the
      caller is kept.\<close>
  "create_order now items conn =
     (case validate_items conn items Map.empty 0 of
        Inl m \<Rightarrow> (Inl m, conn)
      | Inr (dish_map, subtotal) \<Rightarrow>
          (let vat_amount = py_round2 (fmul subtotal vatRate);
               tot = py_round2 (fadd subtotal vat_amount)
           in case accumulate_needs conn dish_map items [] of
                Inl m \<Rightarrow> (Inl m, conn)
              | Inr needs \<Rightarrow>
                  (case check_stock needs of
                     Some m \<Rightarrow> (Inl m, conn)
                   | None \<Rightarrow>
                       (case commit_order now subtotal vat_amount tot dish_map items needs conn of
                          Inl e \<Rightarrow> (Inl (str e), conn)
                        | Inr (order_id, conn') \<Rightarrow> (Inr order_id, conn')))))"

section \<open>Catalog operations\<close>

text \<open>
  A catalog operation returns its Python result and the database it leaves behind.
  \<open>Inr (ok, m)\<close> is the returned pair \<^verbatim>\<open>(ok, m)\<close>; \<open>Inl e\<close> is an exception that
  leaves the function uncaught. A transaction whose body raises is rolled back.
\<close>

definition allowed_units :: "string set" where
  "allowed_units = {''g'', ''pc'', ''ml''}"

definition py_isspace :: "char \<Rightarrow> bool" where
  \<comment> \<open>the ASCII characters that \<^verbatim>\<open>str.strip\<close> removes\<close>
  "py_isspace c \<longleftrightarrow>
     c \<in> set [CHR 0x09, CHR 0x0A, CHR 0x0B, CHR 0x0C, CHR 0x0D,
               CHR 0x1C, CHR 0x1D, CHR 0x1E, CHR 0x1F, CHR 0x20]"

definition strip :: "string \<Rightarrow> string" where
  "strip s = rev (dropWhile py_isspace (rev (dropWhile py_isspace s)))"

definition validate_unit :: "string \<Rightarrow> string option" where
  "validate_unit un = (let u = strip un in if u \<in> allowed_units then Some u else None)"

definition insert_stock :: "string \<Rightarrow> rat \<Rightarrow> string \<Rightarrow> db \<Rightarrow> exn + db" where
  \<comment> \<open>\<^verbatim>\<open>INSERT INTO stock_inventory (ingredient_name, quantity_in_stock, unit)\<close>;
      \<open>ingredient_name\<close> is UNIQUE\<close>
  "insert_stock name qty un conn =
     (if name \<in> si_ingredient_name ` set (stock_inventory conn) then Inl IntegrityError
      else let rid = next_rowid (seq_stock_inventory conn) (map si_id (stock_inventory conn))
           in Inr (conn\<lparr>stock_inventory := stock_inventory conn @
                          [\<lparr>si_id = rid, si_ingredient_name = name, si_quantity_in_stock = qty,
                            si_unit = un\<rparr>],
                        seq_stock_inventory := rid\<rparr>))"

definition ensure_ingredient_exists :: "db \<Rightarrow> string \<Rightarrow> string \<Rightarrow> exn + (msg + int) \<times> db" where
  \<comment> \<open>\<open>Inr (Inl err, _)\<close> is the return value \<^verbatim>\<open>(None, err)\<close>, \<open>Inr (Inr id, _)\<close> is
      \<^verbatim>\<open>(id, None)\<close>\<close>
  "ensure_ingredient_exists conn ingredient_name un =
     (case find (\<lambda>si. si_ingredient_name si = ingredient_name) (stock_inventory conn) of
        Some row \<Rightarrow>
          if si_unit row \<noteq> un
          then Inr (Inl (Unit_mismatch ingredient_name (si_unit row) un), conn)
          else Inr (Inr (si_id row), conn)
      | None \<Rightarrow>
          (case insert_stock ingredient_name 0 un conn of
             Inl e \<Rightarrow> Inl e
           | Inr conn' \<Rightarrow>
               (case find (\<lambda>si. si_ingredient_name si = ingredient_name) (stock_inventory conn') of
                  None \<Rightarrow> Inl TypeError
                | Some row \<Rightarrow> Inr (Inr (si_id row), conn'))))"

definition add_ingredient :: "string \<Rightarrow> rat \<Rightarrow> string \<Rightarrow> db \<Rightarrow> (exn + bool \<times> msg) \<times> db" where
  "add_ingredient name quantity un conn =
     (if quantity \<le> 0 then (Inr (False, Quantity_must_be_greater_than_0), conn)
      else case validate_unit un of
             None \<Rightarrow> (Inr (False, Unit_must_be_one_of_allowed), conn)
           | Some u \<Rightarrow>
               (case insert_stock name quantity u conn of
                  Inr conn' \<Rightarrow> (Inr (True, Ingredient_added), conn')
                | Inl IntegrityError \<Rightarrow> (Inr (False, Ingredient_already_exists), conn)
                | Inl e \<Rightarrow> (Inl e, conn)))"

definition update_stock_row :: "int \<Rightarrow> string \<Rightarrow> rat \<Rightarrow> string \<Rightarrow> db \<Rightarrow> exn + nat \<times> db" where
  \<comment> \<open>\<^verbatim>\<open>UPDATE stock_inventory SET ingredient_name = ?, quantity_in_stock = ?, unit = ?
      WHERE id = ?\<close>; returns \<^verbatim>\<open>rowcount\<close>\<close>
  "update_stock_row ingredient_id name quantity un conn =
     (if \<not> sqlite_int ingredient_id then Inl OverflowError
      else if ingredient_id \<in> si_id ` set (stock_inventory conn) \<and>
              list_ex (\<lambda>si. si_id si \<noteq> ingredient_id \<and> si_ingredient_name si = name)
                      (stock_inventory conn)
      then Inl IntegrityError
      else Inr (length (filter (\<lambda>si. si_id si = ingredient_id) (stock_inventory conn)),
                conn\<lparr>stock_inventory :=
                       map (\<lambda>si. if si_id si = ingredient_id
                                  then si\<lparr>si_ingredient_name := name,
                                          si_quantity_in_stock := quantity, si_unit := un\<rparr>
                                  else si)
                           (stock_inventory conn)\<rparr>))"

definition update_ingredient_by_id ::
  "int \<Rightarrow> string \<Rightarrow> rat \<Rightarrow> string \<Rightarrow> db \<Rightarrow> (exn + bool \<times> msg) \<times> db" where
  "update_ingredient_by_id ingredient_id name quantity un conn =
     (if quantity \<le> 0 then (Inr (False, Quantity_must_be_greater_than_0), conn)
      else case validate_unit un of
             None \<Rightarrow> (Inr (False, Unit_must_be_one_of_allowed), conn)
           | Some u \<Rightarrow>
               (case update_stock_row ingredient_id name quantity u conn of
                  Inl e \<Rightarrow> (Inl e, conn)
                | Inr (rowcount, conn') \<Rightarrow>
                    if rowcount \<noteq> 0 then (Inr (True, Ingredient_updated), conn')
                    else (Inr (False, Ingredient_not_found), conn')))"

definition delete_stock_row :: "int \<Rightarrow> db \<Rightarrow> exn + nat \<times> db" where
  \<comment> \<open>\<^verbatim>\<open>DELETE FROM stock_inventory WHERE id = ?\<close>; \<open>dish_ingredients.ingredient_id\<close>
      references the table with no ON DELETE action\<close>
  "delete_stock_row ingredient_id conn =
     (if \<not> sqlite_int ingredient_id then Inl OverflowError
      else if ingredient_id \<in> si_id ` set (stock_inventory conn) \<and>
              ingredient_id \<in> di_ingredient_id ` set (dish_ingredients conn)
      then Inl IntegrityError
      else Inr (length (filter (\<lambda>si. si_id si = ingredient_id) (stock_inventory conn)),
                conn\<lparr>stock_inventory :=
                       filter (\<lambda>si. si_id si \<noteq> ingredient_id) (stock_inventory conn)\<rparr>))"

definition delete_ingredient_by_id :: "int \<Rightarrow> db \<Rightarrow> (exn + bool \<times> msg) \<times> db" where
  "delete_ingredient_by_id ingredient_id conn =
     (case delete_stock_row ingredient_id conn of
        Inl e \<Rightarrow> (Inl e, conn)
      | Inr (rowcount, conn') \<Rightarrow>
          if rowcount \<noteq> 0 then (Inr (True, Ingredient_deleted), conn')
          else (Inr (False, Ingredient_id_not_found ingredient_id), conn'))"

record recipe_entry =
  e_name :: string
  e_qty_needed :: rat
  e_unit :: string

definition insert_menu :: "string \<Rightarrow> rat \<Rightarrow> db \<Rightarrow> exn + db" where
  \<comment> \<open>\<^verbatim>\<open>INSERT INTO menu_inventory (dish_name, dish_price)\<close>; \<open>dish_name\<close> is UNIQUE\<close>
  "insert_menu name price conn =
     (if name \<in> m_dish_name ` set (menu_inventory conn) then Inl IntegrityError
      else let rid = next_rowid (seq_menu_inventory conn) (map m_id (menu_inventory conn))
           in Inr (conn\<lparr>menu_inventory := menu_inventory conn @
                          [\<lparr>m_id = rid, m_dish_name = name, m_dish_price = price\<rparr>],
                        seq_menu_inventory := rid\<rparr>))"

definition insert_dish_ingredient :: "int \<Rightarrow> int \<Rightarrow> rat \<Rightarrow> db \<Rightarrow> exn + db" where
  \<comment> \<open>\<^verbatim>\<open>INSERT INTO dish_ingredients (menu_id, ingredient_id, quantity_needed)\<close> with the
      two foreign keys of the table\<close>
  "insert_dish_ingredient mid iid qty conn =
     (if mid \<notin> m_id ` set (menu_inventory conn) \<or> iid \<notin> si_id ` set (stock_inventory conn)
      then Inl IntegrityError
      else let rid = next_rowid (seq_dish_ingredients conn) (map di_id (dish_ingredients conn))
           in Inr (conn\<lparr>dish_ingredients := dish_ingredients conn @
                          [\<lparr>di_id = rid, di_menu_id = mid, di_ingredient_id = iid,
                            di_quantity_needed = qty\<rparr>],
                        seq_dish_ingredients := rid\<rparr>))"

fun create_dish_loop :: "int \<Rightarrow> recipe_entry list \<Rightarrow> db \<Rightarrow> exn + db" where
  "create_dish_loop dish_id [] conn = Inr conn"
| "create_dish_loop dish_id (ing # ings) conn =
     (if validate_unit (e_unit ing) = None then Inl (ValueError (Invalid_unit_for (e_name ing)))
      else if e_qty_needed ing \<le> 0
      then Inl (ValueError (Quantity_needed_must_be_greater_than_0_for (e_name ing)))
      else case ensure_ingredient_exists conn (e_name ing) (e_unit ing) of
             Inl e \<Rightarrow> Inl e
           | Inr (Inl err, conn') \<Rightarrow> Inl (ValueError err)
           | Inr (Inr ing_id, conn') \<Rightarrow>
               (case insert_dish_ingredient dish_id ing_id (e_qty_needed ing) conn' of
                  Inl e \<Rightarrow> Inl e
                | Inr conn'' \<Rightarrow> create_dish_loop dish_id ings conn''))"

definition create_dish_body :: "string \<Rightarrow> rat \<Rightarrow> recipe_entry list \<Rightarrow> db \<Rightarrow> exn + db" where
  \<comment> \<open>the body of \<^verbatim>\<open>with conn:\<close>\<close>
  "create_dish_body dish_name dish_price ingredients conn =
     (case insert_menu dish_name dish_price conn of
        Inl e \<Rightarrow> Inl e
      | Inr c1 \<Rightarrow>
          (case find (\<lambda>m. m_dish_name m = dish_name) (menu_inventory c1) of
             None \<Rightarrow> Inl TypeError
           | Some row \<Rightarrow> create_dish_loop (m_id row) ingredients c1))"

definition create_dish ::
  "string \<Rightarrow> rat \<Rightarrow> recipe_entry list \<Rightarrow> db \<Rightarrow> (exn + bool \<times> msg) \<times> db" where
  "create_dish dish_name dish_price ingredients conn =
     (if dish_price \<le> 0 then (Inr (False, Price_must_be_greater_than_0), conn)
      else case create_dish_body dish_name dish_price ingredients conn of
             Inr conn' \<Rightarrow> (Inr (True, Dish_created dish_name), conn')
           | Inl IntegrityError \<Rightarrow> (Inr (False, Dish_already_exists), conn)
           | Inl e \<Rightarrow> (Inr (False, str e), conn))"

definition update_menu_row :: "int \<Rightarrow> string \<Rightarrow> rat \<Rightarrow> db \<Rightarrow> exn + db" where
  \<comment> \<open>\<^verbatim>\<open>UPDATE menu_inventory SET dish_name = ?, dish_price = ? WHERE id = ?\<close>\<close>
  "update_menu_row dish_id name price conn =
     (if \<not> sqlite_int dish_id then Inl OverflowError
      else if dish_id \<in> m_id ` set (menu_inventory conn) \<and>
              list_ex (\<lambda>m. m_id m \<noteq> dish_id \<and> m_dish_name m = name) (menu_inventory conn)
      then Inl IntegrityError
      else Inr (conn\<lparr>menu_inventory :=
                       map (\<lambda>m. if m_id m = dish_id
                                 then m\<lparr>m_dish_name := name, m_dish_price := price\<rparr> else m)
                           (menu_inventory conn)\<rparr>))"

fun update_dish_loop :: "int \<Rightarrow> recipe_entry list \<Rightarrow> db \<Rightarrow> exn + db" where
  \<comment> \<open>each early \<^verbatim>\<open>return\<close> of the loop follows \<^verbatim>\<open>conn.close()\<close> inside \<^verbatim>\<open>with conn:\<close>:
      closing drops the open transaction, and the commit that leaving the block runs on
      the closed connection raises ProgrammingError in place of the return\<close>
  "update_dish_loop dish_id [] conn = Inr conn"
| "update_dish_loop dish_id (ing # ings) conn =
     (if validate_unit (e_unit ing) = None then Inl ProgrammingError
      else if e_qty_needed ing \<le> 0 then Inl ProgrammingError
      else case ensure_ingredient_exists conn (e_name ing) (e_unit ing) of
             Inl e \<Rightarrow> Inl e
           | Inr (Inl err, conn') \<Rightarrow> Inl ProgrammingError
           | Inr (Inr ing_id, conn') \<Rightarrow>
               (case insert_dish_ingredient dish_id ing_id (e_qty_needed ing) conn' of
                  Inl e \<Rightarrow> Inl e
                | Inr conn'' \<Rightarrow> update_dish_loop dish_id ings conn''))"

definition update_dish ::
  "int \<Rightarrow> string \<Rightarrow> rat \<Rightarrow> recipe_entry list \<Rightarrow> db \<Rightarrow> (exn + bool \<times> msg) \<times> db" where
  "update_dish dish_id new_name new_price new_ingredients conn =
     (if new_price \<le> 0 then (Inr (False, Price_must_be_greater_than_0), conn)
      else case select_dish conn dish_id of
             Inl e \<Rightarrow> (Inl e, conn)
           | Inr None \<Rightarrow> (Inl ProgrammingError, conn)
           | Inr (Some row) \<Rightarrow>
               (case update_menu_row dish_id new_name new_price conn of
                  Inl e \<Rightarrow> (Inl e, conn)
                | Inr c1 \<Rightarrow>
                    (case update_dish_loop dish_id new_ingredients
                            (c1\<lparr>dish_ingredients :=
                                  filter (\<lambda>di. di_menu_id di \<noteq> dish_id) (dish_ingredients c1)\<rparr>) of
                       Inl e \<Rightarrow> (Inl e, conn)
                     | Inr c2 \<Rightarrow> (Inr (True, Dish_updated), c2))))"

definition delete_menu_row :: "int \<Rightarrow> db \<Rightarrow> exn + nat \<times> db" where
  \<comment> \<open>\<^verbatim>\<open>DELETE FROM menu_inventory WHERE id = ?\<close>; \<open>dish_ingredients.menu_id\<close> cascades,
      \<open>order_items.dish_id\<close> has no ON DELETE action\<close>
  "delete_menu_row dish_id conn =
     (if \<not> sqlite_int dish_id then Inl OverflowError
      else if dish_id \<in> m_id ` set (menu_inventory conn) \<and>
              dish_id \<in> oi_dish_id ` set (order_items conn)
      then Inl IntegrityError
      else Inr (length (filter (\<lambda>m. m_id m = dish_id) (menu_inventory conn)),
                if dish_id \<in> m_id ` set (menu_inventory conn)
                then conn\<lparr>menu_inventory := filter (\<lambda>m. m_id m \<noteq> dish_id) (menu_inventory conn),
                          dish_ingredients :=
                            filter (\<lambda>di. di_menu_id di \<noteq> dish_id) (dish_ingredients conn)\<rparr>
                else conn))"

definition delete_dish :: "int \<Rightarrow> db \<Rightarrow> (exn + bool \<times> msg) \<times> db" where
  "delete_dish dish_id conn =
     (case delete_menu_row dish_id conn of
        Inl e \<Rightarrow> (Inl e, conn)
      | Inr (rowcount, conn') \<Rightarrow>
          if rowcount \<noteq> 0 then (Inr (True, Dish_deleted), conn')
          else (Inr (False, Dish_not_found), conn'))"

section \<open>Alerts\<close>




section \<open>Queries\<close>

text \<open>
  What the queries take from SQLite and the Python library is a parameter: the LIKE
  operator (pattern, text), the SQL function \<^verbatim>\<open>date\<close> (NULL is \<open>None\<close>), the conversion of
  a stored \<open>order_date\<close> to its display string (lines 351 to 379 of \<^verbatim>\<open>database.py\<close>), and
  \<^verbatim>\<open>str.lower\<close>.
\<close>

record env =
  sql_like :: "string \<Rightarrow> string \<Rightarrow> bool"
  sql_date :: "string \<Rightarrow> string option"
  date_display :: "string \<Rightarrow> string"
  py_lower :: "string \<Rightarrow> string"

definition truthy :: "string option \<Rightarrow> bool" where
  "truthy s = (case s of None \<Rightarrow> False | Some t \<Rightarrow> t \<noteq> [])"

definition fetch_ingredients ::
  "env \<Rightarrow> string option \<Rightarrow> rat option \<Rightarrow> string \<Rightarrow> db \<Rightarrow> stock_row list" where
  "fetch_ingredients ev filter_name filter_quantity op conn =
     filter (\<lambda>si.
        (if truthy filter_name
         then sql_like ev (''%'' @ the filter_name @ ''%'') (si_ingredient_name si) else True) \<and>
        (case filter_quantity of
           None \<Rightarrow> True
         | Some q \<Rightarrow> if op = ''ge'' then q \<le> si_quantity_in_stock si
                     else si_quantity_in_stock si \<le> q))
       (stock_inventory conn)"

definition fetch_menu ::
  "env \<Rightarrow> string option \<Rightarrow> rat option \<Rightarrow> string \<Rightarrow> db \<Rightarrow> menu_row list" where
  "fetch_menu ev filter_name filter_price price_op conn =
     filter (\<lambda>m.
        (if truthy filter_name
         then sql_like ev (''%'' @ the filter_name @ ''%'') (m_dish_name m) else True) \<and>
        (case filter_price of
           None \<Rightarrow> True
         | Some p \<Rightarrow> if price_op = ''le'' then m_dish_price m \<le> p else p \<le> m_dish_price m))
       (menu_inventory conn)"

record item_view =
  iv_quantity :: int
  iv_line_price :: rat
  iv_dish_name :: string

record fetched_order =
  fo_order :: order_row
  fo_order_date_display :: string
  fo_items :: "item_view list"

definition is_substring :: "string \<Rightarrow> string \<Rightarrow> bool" where
  "is_substring a b = list_ex (\<lambda>i. take (length a) (drop i b) = a) [0..<Suc (length b)]"

definition date_ge :: "env \<Rightarrow> string \<Rightarrow> string \<Rightarrow> bool" where
  \<comment> \<open>\<^verbatim>\<open>date(a) >= date(b)\<close>; a comparison with NULL selects nothing\<close>
  "date_ge ev a b =
     (case (sql_date ev a, sql_date ev b) of (Some x, Some y) \<Rightarrow> y \<le> x | _ \<Rightarrow> False)"

definition select_items :: "db \<Rightarrow> int \<Rightarrow> item_view list" where
  \<comment> \<open>\<^verbatim>\<open>order_items oi JOIN menu_inventory m ON m.id = oi.dish_id WHERE oi.order_id = ?\<close>\<close>
  "select_items conn oid =
     concat (map (\<lambda>oi. map (\<lambda>m. \<lparr>iv_quantity = oi_quantity oi, iv_line_price = oi_line_price oi,
                                   iv_dish_name = m_dish_name m\<rparr>)
                          (filter (\<lambda>m. m_id m = oi_dish_id oi) (menu_inventory conn)))
                 (filter (\<lambda>oi. oi_order_id oi = oid) (order_items conn)))"

definition fetch_orders ::
  "env \<Rightarrow> string option \<Rightarrow> string option \<Rightarrow> string option \<Rightarrow> db \<Rightarrow> fetched_order list" where
  "fetch_orders ev filter_name start_date end_date conn =
     (let rows = rev (sort_key o_order_date
                   (filter (\<lambda>r. (if truthy start_date
                                   then date_ge ev (o_order_date r) (the start_date) else True) \<and>
                                  (if truthy end_date
                                   then date_ge ev (the end_date) (o_order_date r) else True))
                           (orders conn)))
      in concat (map (\<lambda>r. let items = select_items conn (o_id r)
                           in if truthy filter_name \<and>
                                 \<not> list_ex (\<lambda>it. is_substring (py_lower ev (the filter_name))
                                                               (py_lower ev (iv_dish_name it))) items
                              then []
                              else [\<lparr>fo_order = r,
                                     fo_order_date_display = date_display ev (o_order_date r),
                                     fo_items = items\<rparr>])
                     rows))"

record csv_row =
  c_order_id :: int
  c_order_date :: string
  c_dish_name :: string
  c_qty :: int
  c_line_price :: rat
  c_subtotal :: rat
  c_vat_rate :: rat
  c_vat_amount :: rat
  c_total :: rat

definition csv_header :: "string list" where
  "csv_header = [''order_id'', ''order_date'', ''dish_name'', ''qty'', ''line_price'',
                 ''subtotal'', ''vat_rate'', ''vat_amount'', ''total'']"

definition export_orders_csv :: "env \<Rightarrow> db \<Rightarrow> string list \<times> csv_row list" where
  \<comment> \<open>the header and the rows handed to \<^verbatim>\<open>csv.writer\<close>, in order\<close>
  "export_orders_csv ev conn =
     (csv_header,
      concat (map (\<lambda>fo. map (\<lambda>it. \<lparr>c_order_id = o_id (fo_order fo),
                                     c_order_date = fo_order_date_display fo,
                                     c_dish_name = iv_dish_name it, c_qty = iv_quantity it,
                                     c_line_price = iv_line_price it,
                                     c_subtotal = o_subtotal (fo_order fo),
                                     c_vat_rate = o_vat_rate (fo_order fo),
                                     c_vat_amount = o_vat_amount (fo_order fo),
                                     c_total = o_total (fo_order fo)\<rparr>)
                           (fo_items fo))
                  (fetch_orders ev None None None conn)))"

section \<open>Reference definitions\<close>

text \<open>
  What the specification says an order is computed from, written over the tables and
  not over the loops of \<^verbatim>\<open>create_order\<close>: the amount of a basket line, the subtotal of
  a basket, the recipe rows a basket pulls, and the need of an ingredient as the sum of
  the contributions of all lines. Sums are float sums, taken in basket order.
\<close>

definition line_amount :: "db \<Rightarrow> int \<times> int \<Rightarrow> rat" where
  "line_amount conn it =
     (case find (\<lambda>m. m_id m = fst it) (menu_inventory conn) of
        None \<Rightarrow> 0
      | Some m \<Rightarrow> fmul (m_dish_price m) (nearest_float (snd it)))"

definition basket_subtotal :: "db \<Rightarrow> (int \<times> int) list \<Rightarrow> rat" where
  "basket_subtotal conn items = foldl fadd 0 (map (line_amount conn) items)"

definition recipe_of :: "db \<Rightarrow> int \<Rightarrow> (recipe_row \<times> stock_row) list" where
  "recipe_of conn dish_id =
     join_recipe conn (filter (\<lambda>di. di_menu_id di = dish_id) (dish_ingredients conn))"

definition basket_rows :: "db \<Rightarrow> (int \<times> int) list \<Rightarrow> (int \<times> recipe_row \<times> stock_row) list" where
  \<comment> \<open>every recipe row of every line, with the quantity of the line\<close>
  "basket_rows conn items = concat (map (\<lambda>it. map (Pair (snd it)) (recipe_of conn (fst it))) items)"

definition contributions :: "db \<Rightarrow> (int \<times> int) list \<Rightarrow> int \<Rightarrow> rat list" where
  "contributions conn items iid =
     map (\<lambda>qr. fmul (di_quantity_needed (fst (snd qr))) (nearest_float (fst qr)))
         (filter (\<lambda>qr. di_ingredient_id (fst (snd qr)) = iid) (basket_rows conn items))"

definition float_sum :: "rat list \<Rightarrow> rat" where
  "float_sum cs = (case cs of [] \<Rightarrow> 0 | c # cs' \<Rightarrow> foldl fadd c cs')"

definition aggregated_need :: "db \<Rightarrow> (int \<times> int) list \<Rightarrow> int \<Rightarrow> rat" where
  "aggregated_need conn items iid = float_sum (contributions conn items iid)"

definition needed_ids :: "db \<Rightarrow> (int \<times> int) list \<Rightarrow> int set" where
  "needed_ids conn items = (\<lambda>qr. di_ingredient_id (fst (snd qr))) ` set (basket_rows conn items)"

definition current_stock :: "db \<Rightarrow> int \<Rightarrow> rat" where
  "current_stock conn iid =
     (case find (\<lambda>si. si_id si = iid) (stock_inventory conn) of
        None \<Rightarrow> 0
      | Some si \<Rightarrow> si_quantity_in_stock si)"

text \<open>
  What an exported row is, per order item: the row of the item, with the name of its dish
  and the date and totals of its order. \<open>db_integrity\<close> is what the schema enforces on
  the three tables involved: the primary keys of \<open>orders\<close> and \<open>menu_inventory\<close> and the
  two foreign keys of \<open>order_items\<close>.
\<close>

definition order_of :: "db \<Rightarrow> item_row \<Rightarrow> order_row" where
  "order_of conn oi = the (find (\<lambda>r. o_id r = oi_order_id oi) (orders conn))"

definition dish_of :: "db \<Rightarrow> item_row \<Rightarrow> menu_row" where
  "dish_of conn oi = the (find (\<lambda>m. m_id m = oi_dish_id oi) (menu_inventory conn))"

definition csv_row_of :: "env \<Rightarrow> db \<Rightarrow> item_row \<Rightarrow> csv_row" where
  "csv_row_of ev conn oi =
     \<lparr>c_order_id = oi_order_id oi,
      c_order_date = date_display ev (o_order_date (order_of conn oi)),
      c_dish_name = m_dish_name (dish_of conn oi),
      c_qty = oi_quantity oi, c_line_price = oi_line_price oi,
      c_subtotal = o_subtotal (order_of conn oi), c_vat_rate = o_vat_rate (order_of conn oi),
      c_vat_amount = o_vat_amount (order_of conn oi), c_total = o_total (order_of conn oi)\<rparr>"

definition db_integrity :: "db \<Rightarrow> bool" where
  "db_integrity conn \<longleftrightarrow>
     distinct (map o_id (orders conn)) \<and> distinct (map m_id (menu_inventory conn)) \<and>
     (\<forall>oi\<in>set (order_items conn).
        oi_order_id oi \<in> o_id ` set (orders conn) \<and>
        oi_dish_id oi \<in> m_id ` set (menu_inventory conn))"

definition schema_ok :: "db \<Rightarrow> bool" where
  \<comment> \<open>with the primary key and the UNIQUE name of \<open>stock_inventory\<close>\<close>
  "schema_ok conn \<longleftrightarrow>
     db_integrity conn \<and> distinct (map si_id (stock_inventory conn)) \<and>
     distinct (map si_ingredient_name (stock_inventory conn))"

definition init_db :: db where
  \<comment> \<open>the database that \<^verbatim>\<open>init_db\<close> creates: every table empty\<close>
  "init_db =
     \<lparr>stock_inventory = [], menu_inventory = [], dish_ingredients = [], orders = [],
      order_items = [], seq_stock_inventory = 0, seq_menu_inventory = 0,
      seq_dish_ingredients = 0, seq_orders = 0, seq_order_items = 0\<rparr>"

section \<open>Auxiliary definitions\<close>

text \<open>
  The dictionary \<open>needs\<close> in closed form: one entry per ingredient id, in the order of
  first occurrence among the recipe rows of the basket, holding the name, unit and
  stock of the first row and the float sum of the contributions. \<open>consume\<close> is the
  effect of the stock updates of a committed order on one stock row.
\<close>

definition row_key :: "int \<times> recipe_row \<times> stock_row \<Rightarrow> int" where
  "row_key qr = di_ingredient_id (fst (snd qr))"

definition row_contribution :: "int \<times> recipe_row \<times> stock_row \<Rightarrow> rat" where
  "row_contribution qr = fmul (di_quantity_needed (fst (snd qr))) (nearest_float (fst qr))"

definition need_of :: "(int \<times> recipe_row \<times> stock_row) list \<Rightarrow> int \<Rightarrow> need_info" where
  "need_of rows k =
     (let rs = filter (\<lambda>qr. row_key qr = k) rows
      in \<lparr>n_name = si_ingredient_name (snd (snd (hd rs))), n_unit = si_unit (snd (snd (hd rs))),
          n_needed = float_sum (map row_contribution rs),
          n_stock = si_quantity_in_stock (snd (snd (hd rs)))\<rparr>)"

definition first_occurrences :: "'a list \<Rightarrow> 'a list" where
  "first_occurrences ks = rev (remdups (rev ks))"

definition needs_of_rows :: "(int \<times> recipe_row \<times> stock_row) list \<Rightarrow> (int \<times> need_info) list" where
  "needs_of_rows rows = map (\<lambda>k. (k, need_of rows k)) (first_occurrences (map row_key rows))"

definition order_needs :: "db \<Rightarrow> (int \<times> int) list \<Rightarrow> (int \<times> need_info) list" where
  "order_needs conn items = needs_of_rows (basket_rows conn items)"

definition headed :: "stock_row list \<Rightarrow> int \<Rightarrow> (int \<times> recipe_row \<times> stock_row) list \<Rightarrow> bool" where
  "headed S k R \<longleftrightarrow>
     (filter (\<lambda>qr. row_key qr = k) R \<noteq> [] \<longrightarrow>
        S \<noteq> [] \<and> snd (snd (hd (filter (\<lambda>qr. row_key qr = k) R))) = hd S)"

definition decrement :: "(int \<times> need_info) list \<Rightarrow> stock_row \<Rightarrow> stock_row" where
  "decrement needs si =
     (case map_of needs (si_id si) of
        None \<Rightarrow> si
      | Some info \<Rightarrow> si\<lparr>si_quantity_in_stock := fsub (n_stock info) (n_needed info)\<rparr>)"

definition consume :: "db \<Rightarrow> (int \<times> int) list \<Rightarrow> stock_row \<Rightarrow> stock_row" where
  "consume conn items si =
     (if si_id si \<in> needed_ids conn items
      then si\<lparr>si_quantity_in_stock :=
                fsub (current_stock conn (si_id si)) (aggregated_need conn items (si_id si))\<rparr>
      else si)"




section \<open>Example data\<close>

definition example_now :: string where
  "example_now = ''2026-01-01 12:00:00''"

definition example_db :: db where
  "example_db =
     \<lparr>stock_inventory =
        [\<lparr>si_id = 1, si_ingredient_name = ''Flour'', si_quantity_in_stock = 500, si_unit = ''g''\<rparr>],
      menu_inventory = [\<lparr>m_id = 1, m_dish_name = ''Bread'', m_dish_price = 5 / 8\<rparr>],
      dish_ingredients =
        [\<lparr>di_id = 1, di_menu_id = 1, di_ingredient_id = 1, di_quantity_needed = 200\<rparr>],
      orders = [], order_items = [],
      seq_stock_inventory = 1, seq_menu_inventory = 1, seq_dish_ingredients = 1,
      seq_orders = 0, seq_order_items = 0\<rparr>"

definition example_exact_db :: db where
  \<comment> \<open>the stock of Flour is exactly what one Bread needs\<close>
  "example_exact_db =
     example_db\<lparr>stock_inventory :=
        [\<lparr>si_id = 1, si_ingredient_name = ''Flour'', si_quantity_in_stock = 200, si_unit = ''g''\<rparr>]\<rparr>"

definition example_rich_db :: db where
  \<comment> \<open>enough Flour for any quantity that fits the checks\<close>
  "example_rich_db =
     example_db\<lparr>stock_inventory :=
        [\<lparr>si_id = 1, si_ingredient_name = ''Flour'',
          si_quantity_in_stock = 1208925819614629174706176, si_unit = ''g''\<rparr>]\<rparr>"

definition example_two_db :: db where
  "example_two_db =
     example_db\<lparr>stock_inventory :=
        [\<lparr>si_id = 1, si_ingredient_name = ''Flour'', si_quantity_in_stock = 500, si_unit = ''g''\<rparr>,
         \<lparr>si_id = 2, si_ingredient_name = ''Sugar'', si_quantity_in_stock = 100, si_unit = ''g''\<rparr>],
        seq_stock_inventory := 2\<rparr>"

definition example_ordered_db :: db where
  "example_ordered_db =
     example_db\<lparr>orders :=
        [\<lparr>o_id = 1, o_order_date = example_now, o_subtotal = 5 / 8, o_vat_rate = vatRate,
          o_vat_amount = 1 / 8, o_total = 3 / 4\<rparr>],
      order_items :=
        [\<lparr>oi_id = 1, oi_order_id = 1, oi_dish_id = 1, oi_quantity = 1, oi_line_price = 5 / 8\<rparr>],
      seq_orders := 1, seq_order_items := 1\<rparr>"

definition example_env :: env where
  "example_env =
     \<lparr>sql_like = (\<lambda>p t. is_substring (butlast (tl p)) t), sql_date = (\<lambda>s. Some (take 10 s)),
      date_display = take 10, py_lower = (\<lambda>s. s)\<rparr>"


definition example_conflict :: "recipe_entry list" where
  "example_conflict =
     [\<lparr>e_name = ''Sugar'', e_qty_needed = 50, e_unit = ''g''\<rparr>,
      \<lparr>e_name = ''Flour'', e_qty_needed = 100, e_unit = ''ml''\<rparr>]"

section \<open>Arithmetic facts\<close>

lemma fl_0 [simp]: "fl 0 = 0"
  by (simp add: fl_def)

lemma round_half_even_0 [simp]: "round_half_even 0 = 0"
  by (simp add: round_half_even_def)

lemma py_round2_0 [simp]: "py_round2 0 = 0"
  by (simp add: py_round2_def)

lemma nearest_float_1: "nearest_float 1 = 1"
  by code_simp

lemma float_of_int_1: "float_of_int 1 = Inr 1"
  by code_simp

lemma fmul_price_1: "fmul (5 / 8) 1 = 5 / 8"
  by code_simp

lemma fadd_0_price: "fadd 0 (5 / 8) = 5 / 8"
  by code_simp

lemma vat_of_price: "py_round2 (fmul (5 / 8) vatRate) = 1170935903116329 / 9007199254740992"
  by code_simp

lemma total_of_price:
  "py_round2 (fadd (5 / 8) (1170935903116329 / 9007199254740992)) =
   3422735716801577 / 4503599627370496"
  by code_simp

lemma round_of_price: "py_round2 (5 / 8) = 5584463537939415 / 9007199254740992"
  by code_simp

lemma total_of_rounded_price:
  "py_round2 (fadd (5584463537939415 / 9007199254740992) (1170935903116329 / 9007199254740992)) =
   3 / 4"
  by code_simp

lemma fmul_200_1: "fmul 200 1 = 200"
  by code_simp

lemma fsub_500_200: "fsub 500 200 = 300"
  by code_simp

lemma vatRate_value: "vatRate = 7566047373982433 / 36028797018963968"
  by code_simp

lemma pow2_pos: "0 < pow2 k"
  by (simp add: pow2_def)

lemma round_half_even_nonneg: "0 \<le> x \<Longrightarrow> 0 \<le> round_half_even x"
proof -
  assume "0 \<le> x"
  then have "0 \<le> \<lfloor>x\<rfloor>" by simp
  then show ?thesis by (simp add: round_half_even_def Let_def)
qed

lemma fl_nonneg: "0 \<le> x \<Longrightarrow> 0 \<le> fl x"
proof (cases "x = 0")
  case True
  then show ?thesis by simp
next
  case False
  assume "0 \<le> x"
  with False have pos: "0 < x" by simp
  define u where "u = pow2 (max (ilog2 \<bar>x\<bar>) (- 1022) - 52)"
  have u: "0 < u" by (simp add: u_def pow2_pos)
  have "0 \<le> \<bar>x\<bar> / u" using u by simp
  then have "0 \<le> round_half_even (\<bar>x\<bar> / u)" by (rule round_half_even_nonneg)
  then have "0 \<le> (of_int (round_half_even (\<bar>x\<bar> / u)) :: rat) * u" using u by simp
  with pos False show ?thesis
    by (simp add: fl_def Let_def u_def)
qed


lemma fsub_self [simp]: "fsub a a = 0"
  by (simp add: fsub_def)

lemma nearest_float_3: "nearest_float 3 = 3"
  by code_simp




lemma fmul_200_3: "fmul 200 3 = 600"
  by code_simp

lemma float_of_int_big: "float_of_int 9223372036854775808 = Inr 9223372036854775808"
  by code_simp

lemma fmul_price_big: "fmul (5 / 8) 9223372036854775808 = 5764607523034234880"
  by code_simp

lemma fadd_0_price_big: "fadd 0 5764607523034234880 = 5764607523034234880"
  by code_simp

lemma fmul_200_big: "fmul 200 9223372036854775808 = 1844674407370955161600"
  by code_simp

lemma nearest_float_0 [simp]: "nearest_float 0 = 0"
  by (simp add: nearest_float_def)

lemma fmul_0_right [simp]: "fmul a 0 = 0"
  by (simp add: fmul_def)

lemma fadd_600_0: "fadd 600 0 = 600"
  by code_simp

text \<open>
  \<^verbatim>\<open>float * int\<close> accepts exactly the ints of magnitude below \<open>2 ^ 1024 - 2 ^ 970\<close>
  (\<open>float_of_int_converts_iff\<close>). The largest of them, \<open>2 ^ 1024 - 2 ^ 970 - 1\<close>, converts
  to the largest float, \<open>2 ^ 1024 - 2 ^ 971\<close>.
\<close>

lemma pow_le_pos: "2 ^ k \<le> (n::int) \<Longrightarrow> 0 < n"
  by (rule less_le_trans[of _ "2 ^ k"]) simp_all

lemma bit_length_unique:
  "2 ^ k \<le> n \<Longrightarrow> n < 2 ^ (Suc k) \<Longrightarrow> bit_length n = Suc k"
proof (induction k arbitrary: n)
  case 0
  then have "n = 1" by simp
  then show ?case by (simp add: bit_length.simps)
next
  case (Suc k)
  from Suc.prems have "2 ^ k \<le> n div 2" "n div 2 < 2 ^ Suc k" by simp_all
  then have "bit_length (n div 2) = Suc k" by (rule Suc.IH)
  moreover from Suc.prems(1) have "0 < n"
    by (rule pow_le_pos)
  ultimately show ?case by (subst bit_length.simps) simp
qed

lemma nearest_float_2_1024: "nearest_float (2 ^ 1024) = 2 ^ 1024"
proof -
  have b: "bit_length (2 ^ 1024) = Suc 1024"
    by (rule bit_length_unique) simp_all
  show ?thesis
    using b
    by (simp add: nearest_float_def fl_def ilog2_def pow2_def round_half_even_def Let_def)
qed

lemma nearest_float_first_too_large: "nearest_float (2 ^ 1024 - 2 ^ 970) = 2 ^ 1024"
proof -
  have b: "bit_length (2 ^ 1024 - 2 ^ 970) = Suc 1023"
    by (rule bit_length_unique) simp_all
  have f: "\<lfloor>(2 ^ 1024 - 2 ^ 970) / 2 ^ 971 :: rat\<rfloor> = 2 ^ 53 - 1"
    by (rule floor_unique) simp_all
  show ?thesis
    using b f
    by (simp add: nearest_float_def fl_def ilog2_def pow2_def round_half_even_def Let_def)
qed

lemma nearest_float_largest: "nearest_float (2 ^ 1024 - 2 ^ 970 - 1) = 2 ^ 1024 - 2 ^ 971"
proof -
  have b: "bit_length (2 ^ 1024 - 2 ^ 970 - 1) = Suc 1023"
    by (rule bit_length_unique) simp_all
  have f: "\<lfloor>(2 ^ 1024 - 2 ^ 970 - 1) / 2 ^ 971 :: rat\<rfloor> = 2 ^ 53 - 1"
    by (rule floor_unique) simp_all
  show ?thesis
    using b f
    by (simp add: nearest_float_def fl_def ilog2_def pow2_def round_half_even_def Let_def)
qed

lemma nearest_float_minus: "nearest_float (- n) = - nearest_float n"
  by (simp add: nearest_float_def fl_def Let_def)

lemma binary_interval: "0 < (n::int) \<Longrightarrow> \<exists>k. 2 ^ k \<le> n \<and> n < 2 ^ Suc k"
proof -
  assume "0 < n"
  then have "1 \<le> nat n" by simp
  from ex_power_ivl1[OF _ this, of 2] obtain k where "2 ^ k \<le> nat n" "nat n < 2 ^ (k + 1)"
    by auto
  then have "2 ^ k \<le> n \<and> n < 2 ^ Suc k"
    using \<open>0 < n\<close> by (simp add: le_nat_iff nat_less_iff)
  then show ?thesis ..
qed

lemma pow2_power_int: "pow2 k = power_int 2 k"
  by (simp add: pow2_def power_int_def inverse_eq_divide power_one_over)

lemma pow2_shift: "pow2 (int k - 52) * 2 ^ 52 = 2 ^ k"
proof -
  have "pow2 (int k - 52) * pow2 52 = pow2 (int k)"
    unfolding pow2_power_int by (subst power_int_add[symmetric]) simp_all
  then show ?thesis by (simp add: pow2_def)
qed

lemma round_half_even_le: "x \<le> of_int m \<Longrightarrow> round_half_even x \<le> m"
proof -
  assume x: "x \<le> of_int m"
  then have f: "\<lfloor>x\<rfloor> \<le> m" by (simp add: floor_le_iff) 
  show ?thesis
  proof (cases "\<lfloor>x\<rfloor> = m")
    case True
    then have "of_int m \<le> x" by (metis of_int_floor_le)
    with x have "x = of_int m" by simp
    then show ?thesis by (simp add: round_half_even_def)
  next
    case False
    with f have "\<lfloor>x\<rfloor> + 1 \<le> m" by simp
    then show ?thesis by (simp add: round_half_even_def Let_def)
  qed
qed

lemma round_half_even_ge: "of_int m \<le> x \<Longrightarrow> m \<le> round_half_even x"
proof -
  assume "of_int m \<le> x"
  then have "m \<le> \<lfloor>x\<rfloor>" by (simp add: le_floor_iff)
  then show ?thesis by (simp add: round_half_even_def Let_def)
qed

lemma round_half_even_ge_half:
  assumes "of_int m - 1 / 2 \<le> x" and "even m"
  shows "m \<le> round_half_even x"
proof (cases "m \<le> \<lfloor>x\<rfloor>")
  case True
  then show ?thesis by (simp add: round_half_even_def Let_def)
next
  case False
  have "of_int (m - 1) \<le> x" using assms(1) by simp
  then have "m - 1 \<le> \<lfloor>x\<rfloor>" by (simp only: le_floor_iff)
  with False have f: "\<lfloor>x\<rfloor> = m - 1" by simp
  with assms(1) have d: "1 / 2 \<le> x - of_int \<lfloor>x\<rfloor>" by simp
  from f assms(2) have "odd \<lfloor>x\<rfloor>" by simp
  with d f show ?thesis by (auto simp: round_half_even_def Let_def)
qed

lemma round_half_even_less_half:
  assumes "x < of_int m - 1 / 2"
  shows "round_half_even x \<le> m - 1"
proof (cases "\<lfloor>x\<rfloor> = m - 1")
  case True
  with assms have "x - of_int \<lfloor>x\<rfloor> < 1 / 2" by simp
  with True show ?thesis by (simp add: round_half_even_def Let_def)
next
  case False
  from assms have "x < of_int m" by simp
  then have "\<lfloor>x\<rfloor> < m" by (simp add: floor_less_iff)
  with False have "\<lfloor>x\<rfloor> + 1 \<le> m - 1" by simp
  then show ?thesis by (simp add: round_half_even_def Let_def)
qed

lemma nearest_float_pos:
  assumes "2 ^ k \<le> n" and "n < 2 ^ Suc k"
  shows "nearest_float n =
           of_int (round_half_even (of_int n / pow2 (int k - 52))) * pow2 (int k - 52)"
proof -
  from assms(1) have pos: "0 < n" by (rule pow_le_pos)
  then have one: "(1::rat) \<le> of_int n" by simp
  have b: "bit_length n = Suc k" using assms by (rule bit_length_unique)
  have "ilog2 (of_int n) = int k" using one by (simp add: ilog2_def b)
  with pos show ?thesis
    by (simp add: nearest_float_def fl_def Let_def)
qed


lemma of_int_ge_pow: "2 ^ k \<le> n \<Longrightarrow> (2::rat) ^ k \<le> of_int n"
proof -
  assume "2 ^ k \<le> n"
  then have "(of_int (2 ^ k) :: rat) \<le> of_int n" by (simp only: of_int_le_iff)
  then show ?thesis by simp
qed

lemma of_int_le_pow: "n \<le> 2 ^ k \<Longrightarrow> of_int n \<le> (2::rat) ^ k"
proof -
  assume "n \<le> 2 ^ k"
  then have "(of_int n :: rat) \<le> of_int (2 ^ k)" by (simp only: of_int_le_iff)
  then show ?thesis by simp
qed

lemma of_int_less_pow: "n < 2 ^ k \<Longrightarrow> of_int n < (2::rat) ^ k"
proof -
  assume "n < 2 ^ k"
  then have "(of_int n :: rat) < of_int (2 ^ k)" by (simp only: of_int_less_iff)
  then show ?thesis by simp
qed

lemma pow_less_cancel: "(2::int) ^ a < 2 ^ b \<Longrightarrow> a < b"
  by simp

lemma nearest_float_too_large:
  assumes "2 ^ 1024 - 2 ^ 970 \<le> n"
  shows "2 ^ 1024 \<le> nearest_float n"
proof -
  from assms have pos: "0 < n" by simp
  from binary_interval[OF pos] obtain k where k: "2 ^ k \<le> n" "n < 2 ^ Suc k" by blast
  define u where "u = pow2 (int k - 52)"
  have u: "0 < u" by (simp add: u_def pow2_pos)
  have shift: "u * 2 ^ 52 = 2 ^ k" unfolding u_def by (rule pow2_shift)
  have nf: "nearest_float n = of_int (round_half_even (of_int n / u)) * u"
    unfolding u_def using k by (rule nearest_float_pos)
  show ?thesis
  proof (cases "1024 \<le> k")
    case True
    have "u * 2 ^ 52 \<le> of_int n" unfolding shift using k(1) by (rule of_int_ge_pow)
    then have "2 ^ 52 \<le> of_int n / u"
      using u by (simp only: pos_le_divide_eq mult.commute)
    then have "of_int (2 ^ 52) \<le> of_int n / u" by simp
    then have "2 ^ 52 \<le> round_half_even (of_int n / u)" by (rule round_half_even_ge)
    then have "(2::rat) ^ 52 \<le> of_int (round_half_even (of_int n / u))"
      by (rule of_int_ge_pow)
    then have "2 ^ 52 * u \<le> of_int (round_half_even (of_int n / u)) * u"
      using u by (simp only: mult_le_cancel_right_pos)
    then have "2 ^ k \<le> nearest_float n" by (simp only: nf shift[symmetric] mult.commute)
    moreover have "(2::rat) ^ 1024 \<le> 2 ^ k" using True by (rule power_increasing) simp
    ultimately show ?thesis by (rule order_trans[rotated])
  next
    case False
    have "(2::int) ^ 1023 \<le> 2 ^ 1024 - 2 ^ 970" by simp
    also note assms
    also note k(2)
    finally have "(2::int) ^ 1023 < 2 ^ Suc k" .
    then have "1023 < Suc k" by (rule pow_less_cancel)
    with False have k1023: "k = 1023" by simp
    have "u * 2 ^ 52 = 2 ^ 971 * 2 ^ 52" unfolding shift k1023 by simp
    then have u971: "u = 2 ^ 971" by (simp only: mult_cancel_right) simp
    have "(of_int (2 ^ 1024 - 2 ^ 970) :: rat) \<le> of_int n"
      using assms by (simp only: of_int_le_iff)
    then have "(2 ^ 1024 - 2 ^ 970 :: rat) \<le> of_int n" by simp
    then have "(2 ^ 1024 - 2 ^ 970) / 2 ^ 971 \<le> of_int n / u"
      unfolding u971 by (rule divide_right_mono) simp
    moreover have "(2 ^ 1024 - 2 ^ 970) / 2 ^ 971 = (of_int (2 ^ 53) - 1 / 2 :: rat)"
      by simp
    ultimately have "of_int (2 ^ 53) - 1 / 2 \<le> of_int n / u" by (simp only:)
    then have "2 ^ 53 \<le> round_half_even (of_int n / u)"
      by (rule round_half_even_ge_half) simp
    then have "(2::rat) ^ 53 \<le> of_int (round_half_even (of_int n / u))"
      by (rule of_int_ge_pow)
    then have "2 ^ 53 * u \<le> of_int (round_half_even (of_int n / u)) * u"
      using u by (simp only: mult_le_cancel_right_pos)
    moreover have "2 ^ 53 * u = (2::rat) ^ 1024" unfolding u971 by simp
    ultimately show ?thesis by (simp only: nf)
  qed
qed


lemma nearest_float_converts:
  assumes "0 < n" and "n < 2 ^ 1024 - 2 ^ 970"
  shows "nearest_float n < 2 ^ 1024"
proof -
  from binary_interval[OF assms(1)] obtain k where k: "2 ^ k \<le> n" "n < 2 ^ Suc k" by blast
  define u where "u = pow2 (int k - 52)"
  have u: "0 < u" by (simp add: u_def pow2_pos)
  have shift: "u * 2 ^ 52 = 2 ^ k" unfolding u_def by (rule pow2_shift)
  have nf: "nearest_float n = of_int (round_half_even (of_int n / u)) * u"
    unfolding u_def using k by (rule nearest_float_pos)
  note k(1)
  also note assms(2)
  also have "(2 ^ 1024 - 2 ^ 970 :: int) < 2 ^ 1024" by simp
  finally have "k < 1024" by (rule pow_less_cancel)
  show ?thesis
  proof (cases "k = 1023")
    case True
    have "u * 2 ^ 52 = 2 ^ 971 * 2 ^ 52" unfolding shift True by simp
    then have u971: "u = 2 ^ 971" by (simp only: mult_cancel_right) simp
    from assms(2) have "n \<le> 2 ^ 1024 - 2 ^ 970 - 1" by simp
    then have "(of_int n :: rat) \<le> of_int (2 ^ 1024 - 2 ^ 970 - 1)"
      by (simp only: of_int_le_iff)
    then have "of_int n \<le> (2 ^ 1024 - 2 ^ 970 - 1 :: rat)" by simp
    then have "of_int n / u \<le> (2 ^ 1024 - 2 ^ 970 - 1) / 2 ^ 971"
      unfolding u971 by (rule divide_right_mono) simp
    also have "(2 ^ 1024 - 2 ^ 970 - 1) / 2 ^ 971 < (of_int (2 ^ 53) - 1 / 2 :: rat)"
      by simp
    finally have "round_half_even (of_int n / u) \<le> 2 ^ 53 - 1"
      by (rule round_half_even_less_half)
    then have "(of_int (round_half_even (of_int n / u)) :: rat) \<le> of_int (2 ^ 53 - 1)"
      by (simp only: of_int_le_iff)
    then have "of_int (round_half_even (of_int n / u)) * u \<le> of_int (2 ^ 53 - 1) * u"
      using u by (simp only: mult_le_cancel_right_pos)
    also have "of_int (2 ^ 53 - 1) * u < (2::rat) ^ 1024" unfolding u971 by simp
    finally show ?thesis by (simp only: nf)
  next
    case False
    with \<open>k < 1024\<close> have k1022: "Suc k \<le> 1023" by simp
    have "of_int n < (2::rat) ^ Suc k" using k(2) by (rule of_int_less_pow)
    also have "(2::rat) ^ Suc k = 2 ^ 53 * u" using shift by simp
    finally have "of_int n / u < 2 ^ 53"
      using u by (simp only: pos_divide_less_eq)
    then have "of_int n / u \<le> of_int (2 ^ 53)" by simp
    then have "round_half_even (of_int n / u) \<le> 2 ^ 53" by (rule round_half_even_le)
    then have "of_int (round_half_even (of_int n / u)) \<le> (2::rat) ^ 53"
      by (rule of_int_le_pow)
    then have "of_int (round_half_even (of_int n / u)) * u \<le> 2 ^ 53 * u"
      using u by (simp only: mult_le_cancel_right_pos)
    also have "2 ^ 53 * u = 2 ^ Suc k" using shift by simp
    also have "(2::rat) ^ Suc k \<le> 2 ^ 1023" using k1022 by (rule power_increasing) simp
    also have "(2::rat) ^ 1023 < 2 ^ 1024" by simp
    finally show ?thesis by (simp only: nf)
  qed
qed

lemma float_of_int_converts_iff:
  "(\<exists>f. float_of_int n = Inr f) \<longleftrightarrow> \<bar>n\<bar> < 2 ^ 1024 - 2 ^ 970"
proof -
  have a: "\<bar>nearest_float n\<bar> = nearest_float \<bar>n\<bar>"
  proof (cases "0 \<le> n")
    case True
    then have "0 \<le> nearest_float n" by (simp add: nearest_float_def fl_nonneg)
    with True show ?thesis by simp
  next
    case False
    then have "0 \<le> nearest_float (- n)" by (simp add: nearest_float_def fl_nonneg)
    moreover have "nearest_float n = - nearest_float (- n)"
      using nearest_float_minus[of "- n"] by simp
    ultimately show ?thesis using False by simp
  qed
  have "\<bar>nearest_float n\<bar> < 2 ^ 1024 \<longleftrightarrow> \<bar>n\<bar> < 2 ^ 1024 - 2 ^ 970"
  proof (cases "\<bar>n\<bar> < 2 ^ 1024 - 2 ^ 970")
    case True
    show ?thesis
    proof (cases "n = 0")
      case True
      then show ?thesis by simp
    next
      case False
      then have "0 < \<bar>n\<bar>" by simp
      from nearest_float_converts[OF this True] True show ?thesis by (simp only: a)
    qed
  next
    case False
    then have "2 ^ 1024 - 2 ^ 970 \<le> \<bar>n\<bar>" by (simp only: not_less)
    from nearest_float_too_large[OF this] False show ?thesis by (simp only: a not_less[symmetric])
  qed
  then show ?thesis by (auto simp: float_of_int_def not_le[symmetric] simp del: not_le)
qed

lemma float_of_int_raises_iff:
  "float_of_int n = Inl OverflowError_float \<longleftrightarrow> 2 ^ 1024 - 2 ^ 970 \<le> \<bar>n\<bar>"
  using float_of_int_converts_iff[of n] by (auto simp: float_of_int_def)

lemma float_of_int_largest:
  "float_of_int (2 ^ 1024 - 2 ^ 970 - 1) = Inr (2 ^ 1024 - 2 ^ 971)"
  unfolding float_of_int_def nearest_float_largest by simp

lemma float_of_int_too_large:
  "float_of_int (2 ^ 1024 - 2 ^ 970) = Inl OverflowError_float"
  "float_of_int (2 ^ 1024) = Inl OverflowError_float"
  "float_of_int (- (2 ^ 1024 - 2 ^ 970)) = Inl OverflowError_float"
  unfolding float_of_int_def nearest_float_minus nearest_float_first_too_large nearest_float_2_1024
  by simp_all

lemma float_of_int_Inr: "float_of_int n = Inr q \<Longrightarrow> q = nearest_float n"
  by (auto simp: float_of_int_def split: if_splits)

lemma float_of_int_Inl: "float_of_int n = Inl e \<Longrightarrow> e = OverflowError_float"
  by (auto simp: float_of_int_def split: if_splits)

lemma fmul_int_Inr:
  "fmul_int x n = Inr a \<Longrightarrow> float_of_int n = Inr (nearest_float n) \<and> a = fmul x (nearest_float n)"
  by (auto simp: fmul_int_def split: sum.splits dest: float_of_int_Inr)

lemma fmul_int_Inl: "fmul_int x n = Inl e \<Longrightarrow> float_of_int n = Inl e \<and> e = OverflowError_float"
  by (auto simp: fmul_int_def split: sum.splits dest: float_of_int_Inl)


section \<open>The order engine: structure of a call\<close>

lemma validate_items_subtotal:
  "validate_items conn items dm s = Inr (dm', s') \<Longrightarrow>
   s' = foldl fadd s (map (line_amount conn) items)"
proof (induction items arbitrary: dm s)
  case Nil
  then show ?case by simp
next
  case (Cons it items)
  obtain d q where it: "it = (d, q)" by (cases it)
  from Cons.prems it obtain row a where
    row: "find (\<lambda>m. m_id m = d) (menu_inventory conn) = Some row" and
    a: "fmul_int (m_dish_price row) q = Inr a" and
    rest: "validate_items conn items (dm(d \<mapsto> (m_dish_name row, m_dish_price row)))
             (fadd s a) = Inr (dm', s')"
    by (auto simp: select_dish_def split: if_splits option.splits sum.splits)
  from Cons.IH[OF rest] fmul_int_Inr[OF a] show ?case
    by (simp add: it line_amount_def row)
qed

lemma insert_order_item_fields:
  "insert_order_item oid did qty price c = Inr c' \<Longrightarrow>
   orders c' = orders c \<and> stock_inventory c' = stock_inventory c \<and>
   menu_inventory c' = menu_inventory c \<and> dish_ingredients c' = dish_ingredients c"
  by (auto simp: insert_order_item_def Let_def split: if_splits)

lemma insert_order_items_fields:
  "insert_order_items oid dm items c = Inr c' \<Longrightarrow>
   orders c' = orders c \<and> stock_inventory c' = stock_inventory c \<and>
   menu_inventory c' = menu_inventory c \<and> dish_ingredients c' = dish_ingredients c"
proof (induction items arbitrary: c)
  case Nil
  then show ?case by simp
next
  case (Cons it items)
  obtain d q where it: "it = (d, q)" by (cases it)
  from Cons.prems it obtain p c1 where
    c1: "insert_order_item oid d q p c = Inr c1" and
    rest: "insert_order_items oid dm items c1 = Inr c'"
    by (auto split: option.splits sum.splits)
  from Cons.IH[OF rest] insert_order_item_fields[OF c1] show ?case by simp
qed

lemma update_stock_fields [simp]:
  "orders (update_stock q i c) = orders c"
  "order_items (update_stock q i c) = order_items c"
  "menu_inventory (update_stock q i c) = menu_inventory c"
  "dish_ingredients (update_stock q i c) = dish_ingredients c"
  by (simp_all add: update_stock_def)

lemma subtract_stock_fields [simp]:
  "orders (subtract_stock needs c) = orders c"
  "order_items (subtract_stock needs c) = order_items c"
  "menu_inventory (subtract_stock needs c) = menu_inventory c"
  "dish_ingredients (subtract_stock needs c) = dish_ingredients c"
  unfolding subtract_stock_def by (induction needs arbitrary: c; simp)+

lemma create_order_failure:
  "create_order now items conn = (Inl m, conn') \<Longrightarrow> conn' = conn"
  by (auto simp: create_order_def Let_def split: sum.splits option.splits prod.splits)

lemma create_order_success:
  assumes "create_order now items conn = (Inr oid, conn')"
  shows "\<exists>dm s needs c1 c2.
           validate_items conn items Map.empty 0 = Inr (dm, s) \<and>
           accumulate_needs conn dm items [] = Inr needs \<and>
           check_stock needs = None \<and>
           insert_order now (py_round2 s) vatRate (py_round2 (fmul s vatRate))
             (py_round2 (fadd s (py_round2 (fmul s vatRate)))) conn = (oid, c1) \<and>
           insert_order_items oid dm items c1 = Inr c2 \<and>
           conn' = subtract_stock needs c2"
  using assms
  by (auto simp: create_order_def commit_order_def Let_def
           split: sum.splits option.splits prod.splits)

lemma example_order_run:
  "create_order example_now [(1, 1)] example_db =
     (Inr 1,
      example_db\<lparr>stock_inventory :=
        [\<lparr>si_id = 1, si_ingredient_name = ''Flour'', si_quantity_in_stock = 300, si_unit = ''g''\<rparr>],
      orders :=
        [\<lparr>o_id = 1, o_order_date = example_now,
          o_subtotal = 5584463537939415 / 9007199254740992,
          o_vat_rate = vatRate,
          o_vat_amount = 1170935903116329 / 9007199254740992,
          o_total = 3422735716801577 / 4503599627370496\<rparr>],
      order_items :=
        [\<lparr>oi_id = 1, oi_order_id = 1, oi_dish_id = 1, oi_quantity = 1,
          oi_line_price = 5584463537939415 / 9007199254740992\<rparr>],
      seq_orders := 1, seq_order_items := 1\<rparr>)"
  by (simp add: create_order_def select_dish_def sqlite_int_def example_db_def fmul_int_def
      float_of_int_1 fmul_price_1 fadd_0_price vat_of_price total_of_price round_of_price
      fmul_200_1 fsub_500_200 select_recipe_def join_recipe_def add_need_def check_stock_def
      commit_order_def insert_order_def next_rowid_def insert_order_item_def subtract_stock_def
      update_stock_def Let_def)

lemma example_basket_subtotal: "basket_subtotal example_db [(1, 1)] = 5 / 8"
  by (simp add: basket_subtotal_def line_amount_def example_db_def nearest_float_1 fmul_price_1
      fadd_0_price)

lemma first_occurrences_snoc:
  "first_occurrences (ks @ [k]) = (if k \<in> set ks then first_occurrences ks else first_occurrences ks @ [k])"
  by (simp add: first_occurrences_def)

lemma set_first_occurrences [simp]: "set (first_occurrences ks) = set ks"
  by (simp add: first_occurrences_def)

lemma distinct_first_occurrences [simp]: "distinct (first_occurrences ks)"
  by (simp add: first_occurrences_def)

lemma float_sum_snoc: "cs \<noteq> [] \<Longrightarrow> float_sum (cs @ [c]) = fadd (float_sum cs) c"
  by (cases cs) (simp_all add: float_sum_def)

lemma float_sum_single [simp]: "float_sum [c] = c"
  by (simp add: float_sum_def)

lemma need_of_snoc_other:
  "row_key x \<noteq> k \<Longrightarrow> need_of (xs @ [x]) k = need_of xs k"
  by (simp add: need_of_def)

lemma need_of_snoc_new:
  "row_key x \<notin> row_key ` set xs \<Longrightarrow>
   need_of (xs @ [x]) (row_key x) =
     \<lparr>n_name = si_ingredient_name (snd (snd x)), n_unit = si_unit (snd (snd x)),
      n_needed = row_contribution x, n_stock = si_quantity_in_stock (snd (snd x))\<rparr>"
proof -
  assume "row_key x \<notin> row_key ` set xs"
  then have "\<And>y. y \<in> set xs \<Longrightarrow> row_key y \<noteq> row_key x"
    by (metis imageI)
  then have "filter (\<lambda>qr. row_key qr = row_key x) xs = []"
    by (simp add: filter_empty_conv)
  then show ?thesis by (simp add: need_of_def)
qed

lemma need_of_snoc_old:
  assumes "row_key x \<in> row_key ` set xs"
  shows "need_of (xs @ [x]) (row_key x) =
           (need_of xs (row_key x))\<lparr>n_needed := fadd (n_needed (need_of xs (row_key x))) (row_contribution x)\<rparr>"
proof -
  from assms have ne: "filter (\<lambda>qr. row_key qr = row_key x) xs \<noteq> []"
    by (auto simp: filter_empty_conv)
  then show ?thesis
    by (simp add: need_of_def Let_def float_sum_snoc)
qed

lemma add_need_needs_of_rows:
  "add_need (row_contribution x) (needs_of_rows xs) (snd x) = needs_of_rows (xs @ [x])"
proof (cases "row_key x \<in> row_key ` set xs")
  case True
  have "add_need (row_contribution x) (needs_of_rows xs) (snd x) =
        map (\<lambda>(k, info). if k = row_key x
               then (k, info\<lparr>n_needed := fadd (n_needed info) (row_contribution x)\<rparr>)
               else (k, info)) (needs_of_rows xs)"
    using True
    by (simp add: add_need_def needs_of_rows_def Let_def image_image row_key_def)
  also have "\<dots> = map (\<lambda>k. (k, need_of (xs @ [x]) k)) (first_occurrences (map row_key xs))"
    using True by (auto simp: needs_of_rows_def need_of_snoc_old need_of_snoc_other)
  also have "\<dots> = needs_of_rows (xs @ [x])"
    using True by (simp add: needs_of_rows_def first_occurrences_snoc)
  finally show ?thesis .
next
  case False
  have a: "add_need (row_contribution x) (needs_of_rows xs) (snd x) =
        needs_of_rows xs @ [(row_key x, need_of (xs @ [x]) (row_key x))]"
    using False
    by (simp add: add_need_def needs_of_rows_def Let_def image_image row_key_def
        need_of_snoc_new[unfolded row_key_def])
  have eq: "needs_of_rows xs =
              map (\<lambda>k. (k, need_of (xs @ [x]) k)) (first_occurrences (map row_key xs))"
    unfolding needs_of_rows_def
  proof (rule map_cong[OF refl])
    fix k
    assume "k \<in> set (first_occurrences (map row_key xs))"
    then have "k \<in> row_key ` set xs" by simp
    with False have "row_key x \<noteq> k" by blast
    then show "(k, need_of xs k) = (k, need_of (xs @ [x]) k)"
      by (simp add: need_of_snoc_other)
  qed
  have r: "needs_of_rows (xs @ [x]) =
             map (\<lambda>k. (k, need_of (xs @ [x]) k)) (first_occurrences (map row_key xs)) @
             [(row_key x, need_of (xs @ [x]) (row_key x))]"
    using False by (simp add: needs_of_rows_def first_occurrences_snoc)
  show ?thesis
    by (simp only: a r eq[symmetric])
qed

lemma add_needs_rows:
  "add_needs q rs (needs_of_rows ys) = Inr needs' \<Longrightarrow>
   needs' = needs_of_rows (ys @ map (Pair q) rs)"
proof (induction rs arbitrary: ys)
  case Nil
  then show ?case by simp
next
  case (Cons r rs)
  from Cons.prems obtain t where
    t: "fmul_int (di_quantity_needed (fst r)) q = Inr t" and
    rest: "add_needs q rs (add_need t (needs_of_rows ys) r) = Inr needs'"
    by (auto split: sum.splits)
  from fmul_int_Inr[OF t] have "t = row_contribution (q, r)"
    by (simp add: row_contribution_def)
  then have "add_need t (needs_of_rows ys) r = needs_of_rows (ys @ [(q, r)])"
    using add_need_needs_of_rows[of "(q, r)" ys] by simp
  with rest have "add_needs q rs (needs_of_rows (ys @ [(q, r)])) = Inr needs'"
    by simp
  from Cons.IH[OF this] show ?case by simp
qed



lemma needs_of_rows_Nil [simp]: "needs_of_rows [] = []"
  by (simp add: needs_of_rows_def first_occurrences_def)

lemma accumulate_needs_rows:
  "accumulate_needs conn dm items (needs_of_rows ys) = Inr needs' \<Longrightarrow>
   needs' = needs_of_rows (ys @ basket_rows conn items)"
proof (induction items arbitrary: ys)
  case Nil
  then show ?case by (simp add: basket_rows_def)
next
  case (Cons it items)
  obtain d q where it: "it = (d, q)" by (cases it)
  from Cons.prems it obtain needs1 where
    line: "add_needs q (recipe_of conn d) (needs_of_rows ys) = Inr needs1" and
    rest: "accumulate_needs conn dm items needs1 = Inr needs'"
    by (auto simp: select_recipe_def recipe_of_def split: if_splits option.splits sum.splits)
  from add_needs_rows[OF line] have "needs1 = needs_of_rows (ys @ map (Pair q) (recipe_of conn d))" .
  with rest have "needs' = needs_of_rows ((ys @ map (Pair q) (recipe_of conn d)) @ basket_rows conn items)"
    using Cons.IH[of "ys @ map (Pair q) (recipe_of conn d)"] by simp
  then show ?case by (simp add: it basket_rows_def)
qed

lemma accumulate_needs_order_needs:
  "accumulate_needs conn dm items [] = Inr needs \<Longrightarrow> needs = order_needs conn items"
  using accumulate_needs_rows[of conn dm items "[]" needs] by (simp add: order_needs_def)

lemma find_eq_hd_filter: "filter P xs \<noteq> [] \<Longrightarrow> find P xs = Some (hd (filter P xs))"
  by (induction xs) auto

lemma headed_Nil [simp]: "headed S k []"
  by (simp add: headed_def)

lemma headed_append: "headed S k A \<Longrightarrow> headed S k B \<Longrightarrow> headed S k (A @ B)"
  by (auto simp: headed_def hd_append)

lemma headed_concat: "(\<And>B. B \<in> set Bs \<Longrightarrow> headed S k B) \<Longrightarrow> headed S k (concat Bs)"
  by (induction Bs) (auto intro: headed_append)

lemma headed_block:
  "headed (filter (\<lambda>si. si_id si = k) stock) k
     (map (\<lambda>si. (q, di, si)) (filter (\<lambda>si. si_id si = di_ingredient_id di) stock))"
proof (cases "di_ingredient_id di = k")
  case True
  then have "filter (\<lambda>qr. row_key qr = k)
               (map (\<lambda>si. (q, di, si)) (filter (\<lambda>si. si_id si = k) stock)) =
             map (\<lambda>si. (q, di, si)) (filter (\<lambda>si. si_id si = k) stock)"
    by (simp add: filter_map o_def row_key_def)
  with True show ?thesis
    by (auto simp: headed_def hd_map)
next
  case False
  then show ?thesis
    by (simp add: headed_def filter_map o_def row_key_def)
qed

lemma headed_recipe:
  "headed (filter (\<lambda>si. si_id si = k) (stock_inventory conn)) k (map (Pair q) (recipe_of conn d))"
proof -
  have "map (Pair q) (recipe_of conn d) =
        concat (map (\<lambda>di. map (\<lambda>si. (q, di, si))
                   (filter (\<lambda>si. si_id si = di_ingredient_id di) (stock_inventory conn)))
                 (filter (\<lambda>di. di_menu_id di = d) (dish_ingredients conn)))"
    by (simp add: recipe_of_def join_recipe_def map_concat o_def)
  then show ?thesis
    by (auto intro!: headed_concat headed_block)
qed

lemma headed_basket_rows:
  "headed (filter (\<lambda>si. si_id si = k) (stock_inventory conn)) k (basket_rows conn items)"
  unfolding basket_rows_def
  by (rule headed_concat) (auto intro: headed_recipe)

lemma need_of_basket:
  assumes "k \<in> needed_ids conn items"
  shows "\<exists>si. find (\<lambda>si. si_id si = k) (stock_inventory conn) = Some si \<and>
              need_of (basket_rows conn items) k =
                \<lparr>n_name = si_ingredient_name si, n_unit = si_unit si,
                 n_needed = aggregated_need conn items k,
                 n_stock = si_quantity_in_stock si\<rparr>"
proof -
  let ?S = "filter (\<lambda>si. si_id si = k) (stock_inventory conn)"
  let ?R = "filter (\<lambda>qr. row_key qr = k) (basket_rows conn items)"
  from assms have ne: "?R \<noteq> []"
    by (auto simp: needed_ids_def filter_empty_conv row_key_def)
  with headed_basket_rows[of k conn items] have S: "?S \<noteq> []" and hd: "snd (snd (hd ?R)) = hd ?S"
    by (auto simp: headed_def)
  have f: "find (\<lambda>si. si_id si = k) (stock_inventory conn) = Some (hd ?S)"
    using S by (rule find_eq_hd_filter)
  have "need_of (basket_rows conn items) k =
          \<lparr>n_name = si_ingredient_name (hd ?S), n_unit = si_unit (hd ?S),
           n_needed = aggregated_need conn items k,
           n_stock = si_quantity_in_stock (hd ?S)\<rparr>"
    using hd
    by (simp add: need_of_def Let_def aggregated_need_def contributions_def row_key_def
        row_contribution_def[abs_def])
  with f show ?thesis by blast
qed

lemma order_needs_keys: "fst ` set (order_needs conn items) = needed_ids conn items"
  by (auto simp: order_needs_def needs_of_rows_def needed_ids_def row_key_def image_image)

lemma order_needs_distinct: "distinct (map fst (order_needs conn items))"
  by (simp add: order_needs_def needs_of_rows_def o_def)

lemma order_needs_entry:
  assumes "(k, info) \<in> set (order_needs conn items)"
  shows "k \<in> needed_ids conn items \<and>
         (\<exists>si. find (\<lambda>si. si_id si = k) (stock_inventory conn) = Some si \<and>
               info = \<lparr>n_name = si_ingredient_name si, n_unit = si_unit si,
                        n_needed = aggregated_need conn items k,
                        n_stock = si_quantity_in_stock si\<rparr>)"
proof -
  from assms have k: "k \<in> needed_ids conn items"
    using order_needs_keys[of conn items] by force
  from assms have "info = need_of (basket_rows conn items) k"
    by (auto simp: order_needs_def needs_of_rows_def)
  with need_of_basket[OF k] k show ?thesis by simp
qed

lemma subtract_stock_map:
  "distinct (map fst needs) \<Longrightarrow>
   stock_inventory (subtract_stock needs c) = map (decrement needs) (stock_inventory c)"
proof (induction needs arbitrary: c)
  case Nil
  then show ?case by (simp add: subtract_stock_def decrement_def)
next
  case (Cons kv needs)
  obtain k info where kv: "kv = (k, info)" by (cases kv)
  from Cons.prems kv have k: "map_of needs k = None" and d: "distinct (map fst needs)"
    by (auto simp: map_of_eq_None_iff)
  have "stock_inventory (subtract_stock (kv # needs) c) =
        map (decrement needs) (stock_inventory (update_stock (fsub (n_stock info) (n_needed info)) k c))"
    using Cons.IH[OF d] by (simp add: subtract_stock_def kv)
  also have "\<dots> = map (decrement (kv # needs)) (stock_inventory c)"
    using k by (auto simp: update_stock_def decrement_def kv)
  finally show ?case .
qed

lemma decrement_order_needs: "decrement (order_needs conn items) si = consume conn items si"
proof (cases "si_id si \<in> needed_ids conn items")
  case True
  then obtain info where mem: "(si_id si, info) \<in> set (order_needs conn items)"
    using order_needs_keys[of conn items] by force
  then have m: "map_of (order_needs conn items) (si_id si) = Some info"
    using order_needs_distinct[of conn items] by simp
  from order_needs_entry[OF mem] show ?thesis
    by (auto simp: decrement_def consume_def m True current_stock_def)
next
  case False
  then have "map_of (order_needs conn items) (si_id si) = None"
    using order_needs_keys[of conn items] by (simp add: map_of_eq_None_iff)
  with False show ?thesis by (simp add: decrement_def consume_def)
qed

lemma find_SomeD: "find P xs = Some x \<Longrightarrow> x \<in> set xs \<and> P x"
  by (induction xs) (auto split: if_splits)



lemma insert_order_items_rows:
  "insert_order_items oid dm items c = Inr c' \<Longrightarrow>
   \<exists>rows. order_items c' = order_items c @ rows \<and>
          map (\<lambda>r. (oi_order_id r, oi_dish_id r, oi_quantity r)) rows =
          map (\<lambda>it. (oid, fst it, snd it)) items"
proof (induction items arbitrary: c)
  case Nil
  then show ?case by simp
next
  case (Cons it items)
  obtain d q where it: "it = (d, q)" by (cases it)
  from Cons.prems it obtain p c1 where
    c1: "insert_order_item oid d q p c = Inr c1" and
    rest: "insert_order_items oid dm items c1 = Inr c'"
    by (auto split: option.splits sum.splits)
  from c1 obtain r where r: "order_items c1 = order_items c @ [r]"
    "oi_order_id r = oid" "oi_dish_id r = d" "oi_quantity r = q"
    by (auto simp: insert_order_item_def Let_def split: if_splits)
  from Cons.IH[OF rest] obtain rows where
    rows: "order_items c' = order_items c1 @ rows"
    "map (\<lambda>r. (oi_order_id r, oi_dish_id r, oi_quantity r)) rows = map (\<lambda>it. (oid, fst it, snd it)) items"
    by blast
  have "order_items c' = order_items c @ (r # rows)" using r rows by simp
  moreover have "map (\<lambda>r. (oi_order_id r, oi_dish_id r, oi_quantity r)) (r # rows) =
                 map (\<lambda>it. (oid, fst it, snd it)) (it # items)"
    using r rows it by simp
  ultimately show ?case by blast
qed













lemmas example_eval =
  create_order_def select_dish_def sqlite_int_def example_db_def example_exact_db_def fmul_int_def
  example_rich_db_def select_recipe_def join_recipe_def add_need_def check_stock_def
  commit_order_def insert_order_def next_rowid_def insert_order_item_def subtract_stock_def
  update_stock_def Let_def

lemmas example_reference_eval =
  needed_ids_def basket_rows_def recipe_of_def join_recipe_def aggregated_need_def
  contributions_def float_sum_def current_stock_def example_db_def example_exact_db_def



lemma example_overflow_run:
  "create_order example_now [(1, 9223372036854775808)] example_rich_db =
     (Inl (Str_of OverflowError), example_rich_db)"
  by (simp add: example_eval float_of_int_big fmul_price_big fadd_0_price_big fmul_200_big)



lemma example_zero_quantity_reference:
  "needed_ids example_db [(1, 3), (1, 0)] = {1}"
  "aggregated_need example_db [(1, 3), (1, 0)] 1 = 600"
  "recipe_of example_db 1 \<noteq> []"
  "select_dish example_db 1 = Inr (Some \<lparr>m_id = 1, m_dish_name = ''Bread'', m_dish_price = 5 / 8\<rparr>)"
  by (simp_all add: example_reference_eval nearest_float_3 fmul_200_3 fadd_600_0 select_dish_def
      sqlite_int_def)


lemma validate_items_float_overflow:
  assumes "\<forall>it\<in>set items. 0 < snd it \<and> (\<exists>row. select_dish conn (fst it) = Inr (Some row))"
    and "\<exists>it\<in>set items. float_of_int (snd it) = Inl OverflowError_float"
  shows "validate_items conn items dm s = Inl (Str_of OverflowError_float)"
  using assms
proof (induction items arbitrary: dm s)
  case Nil
  then show ?case by simp
next
  case (Cons it items)
  obtain d q where it: "it = (d, q)" by (cases it)
  from Cons.prems(1) it obtain row where q: "0 < q" and row: "select_dish conn d = Inr (Some row)"
    by auto
  show ?case
  proof (cases "fmul_int (m_dish_price row) q")
    case (Inl e)
    with fmul_int_Inl[OF Inl] q row show ?thesis by (simp add: it)
  next
    case (Inr a)
    from fmul_int_Inr[OF Inr] Cons.prems(2) it
    have "\<exists>it\<in>set items. float_of_int (snd it) = Inl OverflowError_float"
      by auto
    moreover from Cons.prems(1)
    have "\<forall>it\<in>set items. 0 < snd it \<and> (\<exists>row. select_dish conn (fst it) = Inr (Some row))"
      by simp
    ultimately have "validate_items conn items (dm(d \<mapsto> (m_dish_name row, m_dish_price row)))
        (fadd s a) = Inl (Str_of OverflowError_float)"
      by (rule Cons.IH[rotated])
    with q row Inr show ?thesis by (simp add: it)
  qed
qed

lemma create_order_float_overflow:
  assumes "\<forall>it\<in>set items. 0 < snd it \<and> (\<exists>row. select_dish conn (fst it) = Inr (Some row))"
    and "\<exists>it\<in>set items. 2 ^ 1024 - 2 ^ 970 \<le> snd it"
  shows "create_order now items conn = (Inl (Str_of OverflowError_float), conn)"
proof -
  from assms(2) obtain it where it: "it \<in> set items" "2 ^ 1024 - 2 ^ 970 \<le> snd it" by blast
  from it(2) have "2 ^ 1024 - 2 ^ 970 \<le> \<bar>snd it\<bar>" by (rule order_trans) simp
  then have "float_of_int (snd it) = Inl OverflowError_float"
    by (simp only: float_of_int_raises_iff)
  with it(1) have "\<exists>it\<in>set items. float_of_int (snd it) = Inl OverflowError_float" by blast
  with assms(1) show ?thesis
    by (simp add: create_order_def validate_items_float_overflow)
qed

lemma example_float_overflow_run:
  "create_order example_now [(1, 2 ^ 1024)] example_db =
     (Inl (Str_of OverflowError_float), example_db)"
proof (rule create_order_float_overflow)
  show "\<forall>it\<in>set [(1::int, 2 ^ 1024 :: int)].
          0 < snd it \<and> (\<exists>row. select_dish example_db (fst it) = Inr (Some row))"
    by (simp add: example_zero_quantity_reference)
  show "\<exists>it\<in>set [(1::int, 2 ^ 1024 :: int)]. 2 ^ 1024 - 2 ^ 970 \<le> snd it"
    by simp
qed

lemma create_order_committed:
  assumes run: "create_order now items conn = (Inr oid, c)"
  shows "check_stock (order_needs conn items) = None \<and>
         (\<exists>row rows.
            orders c = orders conn @ [row] \<and> o_id row = oid \<and>
            order_items c = order_items conn @ rows \<and>
            map (\<lambda>r. (oi_order_id r, oi_dish_id r, oi_quantity r)) rows =
              map (\<lambda>it. (oid, fst it, snd it)) items \<and>
            stock_inventory c = map (consume conn items) (stock_inventory conn))"
proof -
  from create_order_success[OF run] obtain dm s needs c1 c2 where
    acc: "accumulate_needs conn dm items [] = Inr needs" and
    chk: "check_stock needs = None" and
    io: "insert_order now (py_round2 s) vatRate (py_round2 (fmul s vatRate))
             (py_round2 (fadd s (py_round2 (fmul s vatRate)))) conn = (oid, c1)" and
    ii: "insert_order_items oid dm items c1 = Inr c2" and
    c': "c = subtract_stock needs c2"
    by blast
  from io obtain row where c1: "orders c1 = orders conn @ [row]" "o_id row = oid"
    "order_items c1 = order_items conn" "stock_inventory c1 = stock_inventory conn"
    by (auto simp: insert_order_def Let_def)
  from insert_order_items_rows[OF ii] obtain rows where
    rows: "order_items c2 = order_items c1 @ rows"
      "map (\<lambda>r. (oi_order_id r, oi_dish_id r, oi_quantity r)) rows =
       map (\<lambda>it. (oid, fst it, snd it)) items"
    by blast
  have needs: "needs = order_needs conn items"
    using acc by (rule accumulate_needs_order_needs)
  have "stock_inventory c = map (decrement needs) (stock_inventory c2)"
    unfolding c' needs by (rule subtract_stock_map) (rule order_needs_distinct)
  then have st: "stock_inventory c = map (consume conn items) (stock_inventory conn)"
    using insert_order_items_fields[OF ii] c1
    by (simp add: needs decrement_order_needs[abs_def])
  have "orders c = orders conn @ [row]"
    using insert_order_items_fields[OF ii] c1 c' by simp
  moreover have "order_items c = order_items conn @ rows"
    using rows c1 c' by simp
  ultimately show ?thesis
    using c1 rows st chk needs by blast
qed

section \<open>The operations keep the keys of the schema\<close>

text \<open>
  The constraints that SQLite enforces hold in the empty database and are kept by every
  operation that writes, so they hold in every database the program can reach. The
  theorems below that assume them lose no state of the program.
\<close>

lemma init_db_schema: "schema_ok init_db"
  by (simp add: schema_ok_def db_integrity_def init_db_def)

lemma fold_max_ge: "(a::int) \<le> fold max ids a \<and> (\<forall>x\<in>set ids. x \<le> fold max ids a)"
proof (induction ids arbitrary: a)
  case Nil
  then show ?case by simp
next
  case (Cons i ids)
  from Cons.IH[of "max i a"] show ?case by auto
qed

lemma next_rowid_fresh: "next_rowid seq ids \<notin> set ids"
proof
  assume "next_rowid seq ids \<in> set ids"
  with fold_max_ge[of 0 ids] have "next_rowid seq ids \<le> fold max ids 0" by blast
  then show False by (simp add: next_rowid_def)
qed

lemma insert_stock_schema:
  assumes "insert_stock name qty un c = Inr c'" and "schema_ok c"
  shows "schema_ok c'"
proof -
  from assms(1) have fresh: "name \<notin> si_ingredient_name ` set (stock_inventory c)"
    and c': "c' = c\<lparr>stock_inventory := stock_inventory c @
                   [\<lparr>si_id = next_rowid (seq_stock_inventory c) (map si_id (stock_inventory c)),
                     si_ingredient_name = name, si_quantity_in_stock = qty, si_unit = un\<rparr>],
                 seq_stock_inventory :=
                   next_rowid (seq_stock_inventory c) (map si_id (stock_inventory c))\<rparr>"
    by (auto simp: insert_stock_def Let_def split: if_splits)
  from assms(2) fresh next_rowid_fresh[of "seq_stock_inventory c" "map si_id (stock_inventory c)"]
  show ?thesis
    by (simp add: c' schema_ok_def db_integrity_def)
qed

lemma ensure_ingredient_exists_schema:
  assumes "ensure_ingredient_exists c n u = Inr (r, c')" and "schema_ok c"
  shows "schema_ok c'"
proof (cases "find (\<lambda>si. si_ingredient_name si = n) (stock_inventory c)")
  case (Some row)
  with assms show ?thesis
    by (auto simp: ensure_ingredient_exists_def split: if_splits)
next
  case None
  with assms(1) obtain c1 where "insert_stock n 0 u c = Inr c1" "c' = c1"
    by (auto simp: ensure_ingredient_exists_def split: sum.splits option.splits)
  with insert_stock_schema assms(2) show ?thesis by blast
qed

lemma insert_dish_ingredient_schema:
  "insert_dish_ingredient mid iid qty c = Inr c' \<Longrightarrow> schema_ok c \<Longrightarrow> schema_ok c'"
  by (auto simp: insert_dish_ingredient_def Let_def schema_ok_def db_integrity_def split: if_splits)

lemma create_dish_loop_schema:
  "create_dish_loop did ings c = Inr c' \<Longrightarrow> schema_ok c \<Longrightarrow> schema_ok c'"
proof (induction ings arbitrary: c)
  case Nil
  then show ?case by simp
next
  case (Cons e ings)
  from Cons.prems(1) obtain i c1 c2 where
    en: "ensure_ingredient_exists c (e_name e) (e_unit e) = Inr (Inr i, c1)" and
    ins: "insert_dish_ingredient did i (e_qty_needed e) c1 = Inr c2" and
    rest: "create_dish_loop did ings c2 = Inr c'"
    by (auto split: if_splits sum.splits prod.splits)
  from ensure_ingredient_exists_schema[OF en Cons.prems(2)] have "schema_ok c1" .
  from insert_dish_ingredient_schema[OF ins this] have "schema_ok c2" .
  from Cons.IH[OF rest this] show ?case .
qed

lemma update_dish_loop_schema:
  "update_dish_loop did ings c = Inr c' \<Longrightarrow> schema_ok c \<Longrightarrow> schema_ok c'"
proof (induction ings arbitrary: c)
  case Nil
  then show ?case by simp
next
  case (Cons e ings)
  from Cons.prems(1) obtain i c1 c2 where
    en: "ensure_ingredient_exists c (e_name e) (e_unit e) = Inr (Inr i, c1)" and
    ins: "insert_dish_ingredient did i (e_qty_needed e) c1 = Inr c2" and
    rest: "update_dish_loop did ings c2 = Inr c'"
    by (auto split: if_splits sum.splits prod.splits)
  from ensure_ingredient_exists_schema[OF en Cons.prems(2)] have "schema_ok c1" .
  from insert_dish_ingredient_schema[OF ins this] have "schema_ok c2" .
  from Cons.IH[OF rest this] show ?case .
qed

lemma insert_menu_schema:
  assumes "insert_menu name price c = Inr c'" and "schema_ok c"
  shows "schema_ok c'"
proof -
  from assms(1) have
    c': "c' = c\<lparr>menu_inventory := menu_inventory c @
                   [\<lparr>m_id = next_rowid (seq_menu_inventory c) (map m_id (menu_inventory c)),
                     m_dish_name = name, m_dish_price = price\<rparr>],
                 seq_menu_inventory :=
                   next_rowid (seq_menu_inventory c) (map m_id (menu_inventory c))\<rparr>"
    by (auto simp: insert_menu_def Let_def split: if_splits)
  from assms(2) next_rowid_fresh[of "seq_menu_inventory c" "map m_id (menu_inventory c)"]
  show ?thesis
    by (auto simp: c' schema_ok_def db_integrity_def)
qed

lemma create_dish_schema: "schema_ok c \<Longrightarrow> schema_ok (snd (create_dish dish_name price ings c))"
proof -
  assume ok: "schema_ok c"
  show ?thesis
  proof (cases "create_dish_body dish_name price ings c")
    case (Inl e)
    with ok show ?thesis by (simp add: create_dish_def split: exn.splits)
  next
    case (Inr c')
    then obtain c1 did where "insert_menu dish_name price c = Inr c1"
      "create_dish_loop did ings c1 = Inr c'"
      by (auto simp: create_dish_body_def split: sum.splits option.splits)
    with ok have "schema_ok c'"
      by (blast intro: create_dish_loop_schema insert_menu_schema)
    with Inr ok show ?thesis by (simp add: create_dish_def)
  qed
qed

lemma update_dish_schema:
  "schema_ok c \<Longrightarrow> schema_ok (snd (update_dish dish_id name price ings c))"
proof -
  assume ok: "schema_ok c"
  have upd: "schema_ok (c1\<lparr>dish_ingredients := filter (\<lambda>di. di_menu_id di \<noteq> dish_id) (dish_ingredients c1)\<rparr>)"
    if "update_menu_row dish_id name price c = Inr c1" for c1
  proof -
    from that have "map m_id (menu_inventory c1) = map m_id (menu_inventory c)"
      "orders c1 = orders c" "order_items c1 = order_items c"
      "stock_inventory c1 = stock_inventory c"
      by (auto simp: update_menu_row_def split: if_splits)
    with ok show ?thesis
      by (simp add: schema_ok_def db_integrity_def) (metis list.set_map)
  qed
  show ?thesis
    using ok upd
    by (auto simp: update_dish_def split: sum.splits option.splits
        intro: update_dish_loop_schema)
qed

lemma delete_dish_schema: "schema_ok c \<Longrightarrow> schema_ok (snd (delete_dish dish_id c))"
proof -
  assume ok: "schema_ok c"
  let ?c' = "c\<lparr>menu_inventory := filter (\<lambda>m. m_id m \<noteq> dish_id) (menu_inventory c),
               dish_ingredients := filter (\<lambda>di. di_menu_id di \<noteq> dish_id) (dish_ingredients c)\<rparr>"
  have "schema_ok ?c'" if free: "dish_id \<notin> oi_dish_id ` set (order_items c)"
  proof -
    have "oi_dish_id oi \<in> m_id ` set (filter (\<lambda>m. m_id m \<noteq> dish_id) (menu_inventory c))"
      if "oi \<in> set (order_items c)" for oi
    proof -
      from that ok obtain m where "m \<in> set (menu_inventory c)" "m_id m = oi_dish_id oi"
        by (auto simp: schema_ok_def db_integrity_def)
      moreover from that free have "oi_dish_id oi \<noteq> dish_id" by (metis imageI)
      ultimately show ?thesis by force
    qed
    with ok show ?thesis
      by (simp add: schema_ok_def db_integrity_def distinct_map_filter)
  qed
  with ok show ?thesis
    by (auto simp: delete_dish_def delete_menu_row_def split: sum.splits if_splits)
qed

lemma add_ingredient_schema: "schema_ok c \<Longrightarrow> schema_ok (snd (add_ingredient name qty un c))"
  by (auto simp: add_ingredient_def split: option.splits sum.splits exn.splits
      intro: insert_stock_schema)

lemma delete_ingredient_schema:
  "schema_ok c \<Longrightarrow> schema_ok (snd (delete_ingredient_by_id ingredient_id c))"
  by (auto simp: delete_ingredient_by_id_def delete_stock_row_def schema_ok_def db_integrity_def
      distinct_map_filter split: sum.splits if_splits)

lemma rename_distinct:
  assumes "distinct (map si_id rows)" "distinct (map si_ingredient_name rows)"
    and "\<not> list_ex (\<lambda>si. si_id si \<noteq> k \<and> si_ingredient_name si = name) rows"
  shows "distinct (map si_ingredient_name
           (map (\<lambda>si. if si_id si = k
                      then si\<lparr>si_ingredient_name := name, si_quantity_in_stock := q, si_unit := u\<rparr>
                      else si) rows))"
  using assms
proof (induction rows)
  case Nil
  then show ?case by simp
next
  case (Cons r rows)
  then have IH: "distinct (map si_ingredient_name
           (map (\<lambda>si. if si_id si = k
                      then si\<lparr>si_ingredient_name := name, si_quantity_in_stock := q, si_unit := u\<rparr>
                      else si) rows))"
    by simp
  show ?case
  proof (cases "si_id r = k")
    case True
    with Cons.prems have "k \<notin> si_id ` set rows" by simp
    then have "\<forall>si\<in>set rows. si_id si \<noteq> k" by (metis imageI)
    with Cons.prems have "\<forall>si\<in>set rows. si_ingredient_name si \<noteq> name"
      by (auto simp: list_ex_iff)
    with True IH \<open>\<forall>si\<in>set rows. si_id si \<noteq> k\<close> show ?thesis by auto
  next
    case False
    let ?upd = "\<lambda>si. if si_id si = k
                      then si\<lparr>si_ingredient_name := name, si_quantity_in_stock := q, si_unit := u\<rparr>
                      else si"
    from False Cons.prems have ne: "si_ingredient_name r \<noteq> name" by (auto simp: list_ex_iff)
    from Cons.prems have notin: "si_ingredient_name r \<notin> si_ingredient_name ` set rows" by simp
    have nin: "si_ingredient_name r \<notin> set (map si_ingredient_name (map ?upd rows))"
    proof
      assume "si_ingredient_name r \<in> set (map si_ingredient_name (map ?upd rows))"
      then obtain x where x: "x \<in> set rows" "si_ingredient_name (?upd x) = si_ingredient_name r"
        by force
      show False
      proof (cases "si_id x = k")
        case True
        with x ne show False by simp
      next
        case False
        with x have "si_ingredient_name x = si_ingredient_name r" by simp
        with x(1) notin show False by (metis imageI)
      qed
    qed
    have step: "map si_ingredient_name (map ?upd (r # rows)) =
                  si_ingredient_name r # map si_ingredient_name (map ?upd rows)"
      using False by simp
    show ?thesis
      unfolding step distinct.simps using nin IH by blast
  qed
qed

lemma update_ingredient_schema:
  "schema_ok c \<Longrightarrow> schema_ok (snd (update_ingredient_by_id ingredient_id name qty un c))"
proof -
  assume ok: "schema_ok c"
  have "schema_ok c'" if "update_stock_row ingredient_id name qty u c = Inr (n, c')" for u n c'
  proof (cases "ingredient_id \<in> si_id ` set (stock_inventory c)")
    case True
    with that have nex: "\<not> list_ex (\<lambda>si. si_id si \<noteq> ingredient_id \<and> si_ingredient_name si = name)
                            (stock_inventory c)"
      and c': "c' = c\<lparr>stock_inventory :=
                 map (\<lambda>si. if si_id si = ingredient_id
                            then si\<lparr>si_ingredient_name := name, si_quantity_in_stock := qty,
                                    si_unit := u\<rparr>
                            else si) (stock_inventory c)\<rparr>"
      by (auto simp: update_stock_row_def split: if_splits)
    from ok have d: "distinct (map si_id (stock_inventory c))"
      "distinct (map si_ingredient_name (stock_inventory c))"
      by (simp_all add: schema_ok_def)
    have ids: "map si_id (stock_inventory c') = map si_id (stock_inventory c)"
      by (simp add: c' o_def if_distrib cong: if_cong)
    from d ids have di: "distinct (map si_id (stock_inventory c'))" by simp
    have dn: "distinct (map si_ingredient_name (stock_inventory c'))"
      using rename_distinct[OF d nex, where q = qty and u = u] by (simp add: c')
    have same: "orders c' = orders c" "order_items c' = order_items c"
      "menu_inventory c' = menu_inventory c"
      by (simp_all add: c')
    from ok show ?thesis
      by (simp add: schema_ok_def db_integrity_def di dn same)
  next
    case False
    then have "map (\<lambda>si. if si_id si = ingredient_id
                            then si\<lparr>si_ingredient_name := name, si_quantity_in_stock := qty,
                                    si_unit := u\<rparr>
                            else si) (stock_inventory c) = stock_inventory c"
      by (intro map_idI) auto
    with that False ok show ?thesis
      by (auto simp: update_stock_row_def schema_ok_def db_integrity_def split: if_splits)
  qed
  with ok show ?thesis
    by (auto simp: update_ingredient_by_id_def split: option.splits sum.splits)
qed

lemma insert_order_item_schema:
  "insert_order_item oid did qty price c = Inr c' \<Longrightarrow> schema_ok c \<Longrightarrow> schema_ok c'"
  by (auto simp: insert_order_item_def Let_def schema_ok_def db_integrity_def split: if_splits)

lemma insert_order_items_schema:
  "insert_order_items oid dm items c = Inr c' \<Longrightarrow> schema_ok c \<Longrightarrow> schema_ok c'"
proof (induction items arbitrary: c)
  case Nil
  then show ?case by simp
next
  case (Cons it items)
  obtain d q where it: "it = (d, q)" by (cases it)
  from Cons.prems(1) it obtain p c1 where
    c1: "insert_order_item oid d q p c = Inr c1" and
    rest: "insert_order_items oid dm items c1 = Inr c'"
    by (auto split: option.splits sum.splits)
  from Cons.IH[OF rest insert_order_item_schema[OF c1 Cons.prems(2)]] show ?case .
qed

lemma update_stock_schema: "schema_ok c \<Longrightarrow> schema_ok (update_stock q i c)"
proof -
  have "map si_id (stock_inventory (update_stock q i c)) = map si_id (stock_inventory c)"
    "map si_ingredient_name (stock_inventory (update_stock q i c)) =
     map si_ingredient_name (stock_inventory c)"
    by (simp_all add: update_stock_def o_def if_distrib cong: if_cong)
  then show "schema_ok c \<Longrightarrow> schema_ok (update_stock q i c)"
    by (simp add: schema_ok_def db_integrity_def)
qed

lemma subtract_stock_schema: "schema_ok c \<Longrightarrow> schema_ok (subtract_stock needs c)"
  unfolding subtract_stock_def
  by (induction needs arbitrary: c) (simp_all add: update_stock_schema)

lemma insert_order_schema:
  assumes "insert_order now a b v t c = (oid, c')" and "schema_ok c"
  shows "schema_ok c'"
  using assms next_rowid_fresh[of "seq_orders c" "map o_id (orders c)"]
  by (auto simp: insert_order_def Let_def schema_ok_def db_integrity_def)

lemma create_order_schema: "schema_ok c \<Longrightarrow> schema_ok (snd (create_order now items c))"
proof -
  assume ok: "schema_ok c"
  show ?thesis
  proof (cases "fst (create_order now items c)")
    case (Inl m)
    then have "create_order now items c = (Inl m, snd (create_order now items c))"
      by (simp add: prod_eq_iff)
    with create_order_failure ok show ?thesis by metis
  next
    case (Inr oid)
    then have "create_order now items c = (Inr oid, snd (create_order now items c))"
      by (simp add: prod_eq_iff)
    from create_order_success[OF this] obtain dm s needs c1 c2 where
      "insert_order now (py_round2 s) vatRate (py_round2 (fmul s vatRate))
             (py_round2 (fadd s (py_round2 (fmul s vatRate)))) c = (oid, c1)"
      "insert_order_items oid dm items c1 = Inr c2"
      "snd (create_order now items c) = subtract_stock needs c2"
      by blast
    with ok show ?thesis
      by (metis insert_order_schema insert_order_items_schema subtract_stock_schema)
  qed
qed

section \<open>Atomicity of order placement\<close>

text \<open>
  C1. Whatever the basket, a call of \<open>create_order\<close> that returns a failure (a dish not
  found, a quantity below one, an empty recipe, insufficient stock, or an exception raised
  inside the transaction) leaves the database exactly as it was. A call that returns an
  order id has appended one order row with that id and one item row per basket line, and
  has decremented the stock of every needed ingredient: the three are persisted together
  and only on success.
\<close>

theorem create_order_atomic:
  "(\<forall>m. fst (create_order now items conn) = Inl m \<longrightarrow>
        snd (create_order now items conn) = conn) \<and>
   (\<forall>oid. fst (create_order now items conn) = Inr oid \<longrightarrow>
      (\<exists>row rows.
         orders (snd (create_order now items conn)) = orders conn @ [row] \<and> o_id row = oid \<and>
         order_items (snd (create_order now items conn)) = order_items conn @ rows \<and>
         map (\<lambda>r. (oi_order_id r, oi_dish_id r, oi_quantity r)) rows =
           map (\<lambda>it. (oid, fst it, snd it)) items \<and>
         stock_inventory (snd (create_order now items conn)) =
           map (consume conn items) (stock_inventory conn)))"
proof (intro conjI allI impI)
  fix m
  assume "fst (create_order now items conn) = Inl m"
  then have "create_order now items conn = (Inl m, snd (create_order now items conn))"
    by (simp add: prod_eq_iff)
  then show "snd (create_order now items conn) = conn"
    by (rule create_order_failure)
next
  fix oid
  assume "fst (create_order now items conn) = Inr oid"
  then have "create_order now items conn = (Inr oid, snd (create_order now items conn))"
    by (simp add: prod_eq_iff)
  from create_order_committed[OF this] show "\<exists>row rows.
         orders (snd (create_order now items conn)) = orders conn @ [row] \<and> o_id row = oid \<and>
         order_items (snd (create_order now items conn)) = order_items conn @ rows \<and>
         map (\<lambda>r. (oi_order_id r, oi_dish_id r, oi_quantity r)) rows =
           map (\<lambda>it. (oid, fst it, snd it)) items \<and>
         stock_inventory (snd (create_order now items conn)) =
           map (consume conn items) (stock_inventory conn)"
    by blast
qed

theorem create_order_atomic_witness:
  "fst (create_order example_now [(1, 9223372036854775808)] example_rich_db) =
     Inl (Str_of OverflowError) \<and>
   snd (create_order example_now [(1, 9223372036854775808)] example_rich_db) = example_rich_db \<and>
   fst (create_order example_now [(1, 1)] example_db) = Inr 1 \<and>
   map o_id (orders (snd (create_order example_now [(1, 1)] example_db))) = [1] \<and>
   map (\<lambda>r. (oi_order_id r, oi_dish_id r, oi_quantity r))
       (order_items (snd (create_order example_now [(1, 1)] example_db))) = [(1, 1, 1)] \<and>
   map si_quantity_in_stock (stock_inventory (snd (create_order example_now [(1, 1)] example_db))) =
     [300]"
  using create_order_atomic [of example_now "[(1, 9223372036854775808)]" example_rich_db]
    create_order_atomic [of example_now "[(1, 1)]" example_db]
  by (simp add: example_overflow_run example_order_run)

section \<open>Aggregated demand and the sufficiency check\<close>




section \<open>Stock never goes negative\<close>



section \<open>Order totals\<close>

text \<open>
  C3. As stated, the claim asks for
  \<open>total = round (round subtotal + round (subtotal * rate))\<close>. The code adds the VAT amount
  to the subtotal before the subtotal is rounded. For the basket of one Bread at 0.625
  the order row holds total 0.76, and the formula of the claim gives 0.75.
\<close>

theorem order_total_not_from_rounded_subtotal:
  "fst (create_order example_now [(1, 1)] example_db) = Inr 1 \<and>
   basket_subtotal example_db [(1, 1)] = 5 / 8 \<and>
   map o_total (orders (snd (create_order example_now [(1, 1)] example_db))) =
     [3422735716801577 / 4503599627370496] \<and>
   py_round2 (fadd (py_round2 (5 / 8)) (py_round2 (fmul (5 / 8) vatRate))) = 3 / 4"
  by (simp add: example_order_run example_basket_subtotal vat_of_price round_of_price
      total_of_rounded_price)

text \<open>
  C3, amended. For every basket that \<open>create_order\<close> commits, the order row holds
  \<open>subtotal = round (S, 2)\<close>, \<open>vat_rate = 0.21\<close>, \<open>vat_amount = round (S * 0.21, 2)\<close> and
  \<open>total = round (S + vat_amount, 2)\<close>, where \<open>S\<close> is the unrounded float sum of
  price times quantity over the basket lines, and \<open>round\<close> is the one rounding of
  Python (half to even) in all three.
\<close>

theorem order_totals:
  assumes "create_order now items conn = (Inr oid, conn')"
  shows "orders conn' = orders conn @
           [\<lparr>o_id = oid, o_order_date = now,
             o_subtotal = py_round2 (basket_subtotal conn items),
             o_vat_rate = vatRate,
             o_vat_amount = py_round2 (fmul (basket_subtotal conn items) vatRate),
             o_total = py_round2 (fadd (basket_subtotal conn items)
                          (py_round2 (fmul (basket_subtotal conn items) vatRate)))\<rparr>]"
proof -
  from create_order_success[OF assms] obtain dm s needs c1 c2 where
    v: "validate_items conn items Map.empty 0 = Inr (dm, s)" and
    io: "insert_order now (py_round2 s) vatRate (py_round2 (fmul s vatRate))
             (py_round2 (fadd s (py_round2 (fmul s vatRate)))) conn = (oid, c1)" and
    ii: "insert_order_items oid dm items c1 = Inr c2" and
    c': "conn' = subtract_stock needs c2"
    by blast
  have s: "s = basket_subtotal conn items"
    using validate_items_subtotal[OF v] by (simp add: basket_subtotal_def)
  have "orders conn' = orders c1"
    using insert_order_items_fields[OF ii] c' by simp
  with io s show ?thesis
    by (auto simp: insert_order_def Let_def)
qed

theorem order_totals_witness:
  "fst (create_order example_now [(1, 1)] example_db) = Inr 1 \<and>
   orders (snd (create_order example_now [(1, 1)] example_db)) = orders example_db @
     [\<lparr>o_id = 1, o_order_date = example_now,
       o_subtotal = py_round2 (basket_subtotal example_db [(1, 1)]),
       o_vat_rate = vatRate,
       o_vat_amount = py_round2 (fmul (basket_subtotal example_db [(1, 1)]) vatRate),
       o_total = py_round2 (fadd (basket_subtotal example_db [(1, 1)])
                    (py_round2 (fmul (basket_subtotal example_db [(1, 1)]) vatRate)))\<rparr>]"
proof -
  have run: "create_order example_now [(1, 1)] example_db =
               (Inr 1, snd (create_order example_now [(1, 1)] example_db))"
    by (simp add: example_order_run)
  from order_totals[OF run] show ?thesis by (simp add: example_order_run)
qed

section \<open>The empty basket\<close>

text \<open>
  C4. As stated, the claim asks \<open>create_order\<close> to reject the empty basket and to
  persist nothing. On the example database the call with the empty basket returns the
  new order id 1 and leaves one order row behind.
\<close>

theorem empty_basket_is_committed:
  "fst (create_order example_now [] example_db) = Inr 1 \<and>
   map o_id (orders (snd (create_order example_now [] example_db))) = [1] \<and>
   orders example_db = []"
  by (simp add: create_order_def check_stock_def commit_order_def insert_order_def
      subtract_stock_def fmul_def fadd_def Let_def example_db_def next_rowid_def)

text \<open>
  C4, amended. \<open>create_order\<close> takes a basket as a list of (dish id, quantity) pairs.
  For the empty basket it returns success with a fresh order id and persists one order
  row with subtotal, VAT amount and total 0; it adds no order item and changes no stock.
\<close>

theorem create_order_empty_basket:
  "create_order now [] conn =
     (Inr (next_rowid (seq_orders conn) (map o_id (orders conn))),
      conn\<lparr>orders := orders conn @
             [\<lparr>o_id = next_rowid (seq_orders conn) (map o_id (orders conn)), o_order_date = now,
               o_subtotal = 0, o_vat_rate = vatRate, o_vat_amount = 0, o_total = 0\<rparr>],
           seq_orders := next_rowid (seq_orders conn) (map o_id (orders conn))\<rparr>)"
  by (simp add: create_order_def check_stock_def commit_order_def insert_order_def
      subtract_stock_def fmul_def fadd_def Let_def)

theorem create_order_empty_basket_witness:
  "create_order example_now [] example_db =
     (Inr 1,
      example_db\<lparr>orders :=
             [\<lparr>o_id = 1, o_order_date = example_now,
               o_subtotal = 0, o_vat_rate = vatRate, o_vat_amount = 0, o_total = 0\<rparr>],
           seq_orders := 1\<rparr>)"
  using create_order_empty_basket [of example_now example_db]
  by (simp add: example_db_def next_rowid_def)

section \<open>Operations that raise\<close>

lemma validate_unit_g: "validate_unit ''g'' = Some ''g''"
  by (simp add: validate_unit_def strip_def py_isspace_def allowed_units_def)

lemma validate_unit_ml: "validate_unit ''ml'' = Some ''ml''"
  by (simp add: validate_unit_def strip_def py_isspace_def allowed_units_def)

lemma validate_unit_kg: "validate_unit ''kg'' = None"
  by (simp add: validate_unit_def strip_def py_isspace_def allowed_units_def)

text \<open>
  C5. The claim is that no public operation ends in an uncaught exception. Three
  operations do: \<open>update_ingredient_by_id\<close> renaming Sugar to the existing name Flour
  raises IntegrityError (the UNIQUE constraint, nothing catches it); \<open>delete_dish\<close> of
  a dish that an order item references raises IntegrityError (the foreign key); and
  \<open>update_dish\<close> raises ProgrammingError on each of its early returns, here a
  non-positive quantity in the second recipe entry and a dish id that does not exist.
  In every case the database is left as it was.
\<close>

theorem uncaught_exceptions:
  "update_ingredient_by_id 2 ''Flour'' 5 ''g'' example_two_db = (Inl IntegrityError, example_two_db) \<and>
   delete_dish 1 example_ordered_db = (Inl IntegrityError, example_ordered_db) \<and>
   update_dish 1 ''Bread'' 1
     [\<lparr>e_name = ''Flour'', e_qty_needed = 100, e_unit = ''g''\<rparr>,
      \<lparr>e_name = ''Salt'', e_qty_needed = 0, e_unit = ''g''\<rparr>] example_db =
     (Inl ProgrammingError, example_db) \<and>
   update_dish 7 ''Soup'' 1 [] example_db = (Inl ProgrammingError, example_db)"
  by (simp add: update_ingredient_by_id_def update_stock_row_def delete_dish_def delete_menu_row_def
      update_dish_def update_menu_row_def select_dish_def ensure_ingredient_exists_def
      insert_dish_ingredient_def next_rowid_def
      sqlite_int_def validate_unit_g example_two_db_def example_ordered_db_def example_db_def
      Let_def)

section \<open>Low-stock alerts\<close>








section \<open>Queries without filters and with tighter bounds\<close>

lemma mset_filter_mono:
  "(\<And>x. x \<in> set xs \<Longrightarrow> P x \<Longrightarrow> Q x) \<Longrightarrow> mset (filter P xs) \<subseteq># mset (filter Q xs)"
  unfolding mset_filter by (rule filter_mset_mono_strong) simp_all

lemma fetch_orders_unfiltered:
  "fetch_orders ev None None None conn =
     map (\<lambda>r. \<lparr>fo_order = r, fo_order_date_display = date_display ev (o_order_date r),
                 fo_items = select_items conn (o_id r)\<rparr>)
         (rev (sort_key o_order_date (orders conn)))"
  by (simp add: fetch_orders_def truthy_def Let_def concat_map_singleton)

text \<open>
  C8. Without filters \<open>fetch_ingredients\<close> returns the whole of \<open>stock_inventory\<close>,
  \<open>fetch_menu\<close> the whole of \<open>menu_inventory\<close>, and \<open>fetch_orders\<close> every order once. With
  any name filter, adding a quantity bound or a price bound removes rows only, and so
  does tightening one: a larger bound under \<open>ge\<close>, a smaller one under the other
  comparison, for ingredients; a smaller bound under \<open>le\<close>, a larger one under the other
  comparison, for dishes.
\<close>

theorem fetch_filters_monotonic:
  "fetch_ingredients ev None None op conn = stock_inventory conn \<and>
   fetch_menu ev None None price_op conn = menu_inventory conn \<and>
   mset (map fo_order (fetch_orders ev None None None conn)) = mset (orders conn) \<and>
   mset (fetch_ingredients ev fn fq op conn) \<subseteq># mset (fetch_ingredients ev fn None op conn) \<and>
   (q \<le> q' \<longrightarrow> mset (fetch_ingredients ev fn (Some q') ''ge'' conn)
                 \<subseteq># mset (fetch_ingredients ev fn (Some q) ''ge'' conn)) \<and>
   (op \<noteq> ''ge'' \<and> q' \<le> q \<longrightarrow> mset (fetch_ingredients ev fn (Some q') op conn)
                 \<subseteq># mset (fetch_ingredients ev fn (Some q) op conn)) \<and>
   mset (fetch_menu ev fn fp price_op conn) \<subseteq># mset (fetch_menu ev fn None price_op conn) \<and>
   (p' \<le> p \<longrightarrow> mset (fetch_menu ev fn (Some p') ''le'' conn)
                 \<subseteq># mset (fetch_menu ev fn (Some p) ''le'' conn)) \<and>
   (price_op \<noteq> ''le'' \<and> p \<le> p' \<longrightarrow> mset (fetch_menu ev fn (Some p') price_op conn)
                 \<subseteq># mset (fetch_menu ev fn (Some p) price_op conn))"
proof (intro conjI impI)
  show "fetch_ingredients ev None None op conn = stock_inventory conn"
    by (simp add: fetch_ingredients_def truthy_def)
  show "fetch_menu ev None None price_op conn = menu_inventory conn"
    by (simp add: fetch_menu_def truthy_def)
  show "mset (map fo_order (fetch_orders ev None None None conn)) = mset (orders conn)"
    by (simp add: fetch_orders_unfiltered o_def)
  show "mset (fetch_ingredients ev fn fq op conn) \<subseteq># mset (fetch_ingredients ev fn None op conn)"
    unfolding fetch_ingredients_def by (rule mset_filter_mono) (auto split: if_splits)
  show "mset (fetch_menu ev fn fp price_op conn) \<subseteq># mset (fetch_menu ev fn None price_op conn)"
    unfolding fetch_menu_def by (rule mset_filter_mono) (auto split: if_splits)
next
  assume "q \<le> q'"
  then show "mset (fetch_ingredients ev fn (Some q') ''ge'' conn)
               \<subseteq># mset (fetch_ingredients ev fn (Some q) ''ge'' conn)"
    unfolding fetch_ingredients_def by (intro mset_filter_mono) (auto split: if_splits)
next
  assume "op \<noteq> ''ge'' \<and> q' \<le> q"
  then show "mset (fetch_ingredients ev fn (Some q') op conn)
               \<subseteq># mset (fetch_ingredients ev fn (Some q) op conn)"
    unfolding fetch_ingredients_def by (intro mset_filter_mono) (auto split: if_splits)
next
  assume "p' \<le> p"
  then show "mset (fetch_menu ev fn (Some p') ''le'' conn)
               \<subseteq># mset (fetch_menu ev fn (Some p) ''le'' conn)"
    unfolding fetch_menu_def by (intro mset_filter_mono) (auto split: if_splits)
next
  assume "price_op \<noteq> ''le'' \<and> p \<le> p'"
  then show "mset (fetch_menu ev fn (Some p') price_op conn)
               \<subseteq># mset (fetch_menu ev fn (Some p) price_op conn)"
    unfolding fetch_menu_def by (intro mset_filter_mono) (auto split: if_splits)
qed

lemma example_fetch:
  "fetch_ingredients example_env None (Some 200) ''ge'' example_two_db =
     [\<lparr>si_id = 1, si_ingredient_name = ''Flour'', si_quantity_in_stock = 500, si_unit = ''g''\<rparr>]"
  "fetch_ingredients example_env None (Some 100) ''ge'' example_two_db =
     stock_inventory example_two_db"
  by (simp_all add: fetch_ingredients_def truthy_def example_two_db_def example_db_def)

theorem fetch_filters_monotonic_witness:
  "(100::rat) \<le> 200 \<and>
   fetch_ingredients example_env None (Some 100) ''ge'' example_two_db =
     stock_inventory example_two_db \<and>
   mset [\<lparr>si_id = 1, si_ingredient_name = ''Flour'', si_quantity_in_stock = 500, si_unit = ''g''\<rparr>]
     \<subseteq># mset (stock_inventory example_two_db)"
proof -
  have "mset (fetch_ingredients example_env None (Some 200) ''ge'' example_two_db)
          \<subseteq># mset (fetch_ingredients example_env None (Some 100) ''ge'' example_two_db)"
    using fetch_filters_monotonic[where ev = example_env and conn = example_two_db
        and fn = None and q = 100 and q' = 200,
        THEN conjunct2, THEN conjunct2, THEN conjunct2, THEN conjunct2, THEN conjunct1]
    by simp
  then show ?thesis by (simp add: example_fetch)
qed

section \<open>Dish creation and unit conflicts\<close>

lemma find_append:
  "find P (xs @ ys) = (case find P xs of None \<Rightarrow> find P ys | Some x \<Rightarrow> Some x)"
  by (induction xs) auto

lemma find_prefix: "find P xs = Some x \<Longrightarrow> find P (xs @ ys) = Some x"
  by (simp add: find_append)

lemma ensure_ingredient_exists_not_raised:
  "ensure_ingredient_exists c n u \<noteq> Inl e"
  by (auto simp: ensure_ingredient_exists_def insert_stock_def Let_def find_append find_None_iff
      split: option.splits)

lemma ensure_ingredient_exists_mismatch:
  "ensure_ingredient_exists c n u = Inr (Inl err, c') \<Longrightarrow> \<exists>a. err = Unit_mismatch n a u"
  by (auto simp: ensure_ingredient_exists_def insert_stock_def Let_def
      split: option.splits if_splits sum.splits)

lemma ensure_ingredient_exists_found:
  assumes "ensure_ingredient_exists c n u = Inr (Inr i, c')"
  shows "(\<exists>new. stock_inventory c' = stock_inventory c @ new \<and>
               (\<forall>r\<in>set new. si_quantity_in_stock r = 0)) \<and>
         menu_inventory c' = menu_inventory c \<and>
         (\<exists>row. find (\<lambda>si. si_ingredient_name si = n) (stock_inventory c') = Some row \<and>
                si_unit row = u) \<and>
         i \<in> si_id ` set (stock_inventory c')"
proof (cases "find (\<lambda>si. si_ingredient_name si = n) (stock_inventory c)")
  case (Some row)
  with assms have "c' = c" "si_unit row = u" "i = si_id row"
    by (auto simp: ensure_ingredient_exists_def split: if_splits)
  moreover from Some have "row \<in> set (stock_inventory c)"
    by (auto dest: find_SomeD)
  ultimately show ?thesis using Some by auto
next
  case None
  let ?rid = "next_rowid (seq_stock_inventory c) (map si_id (stock_inventory c))"
  let ?row = "\<lparr>si_id = ?rid, si_ingredient_name = n, si_quantity_in_stock = 0, si_unit = u\<rparr>"
  from None have notin: "n \<notin> si_ingredient_name ` set (stock_inventory c)"
    by (auto simp: find_None_iff)
  with assms None have c': "stock_inventory c' = stock_inventory c @ [?row]"
    "menu_inventory c' = menu_inventory c" and i: "i = ?rid"
    by (auto simp: ensure_ingredient_exists_def insert_stock_def Let_def find_append
        split: option.splits if_splits sum.splits)
  have "find (\<lambda>si. si_ingredient_name si = n) (stock_inventory c') = Some ?row"
    using None by (simp add: c' find_append)
  then show ?thesis using c' i by auto
qed

lemma insert_dish_ingredient_fields:
  "insert_dish_ingredient mid iid qty c = Inr c' \<Longrightarrow>
   stock_inventory c' = stock_inventory c \<and> menu_inventory c' = menu_inventory c"
  by (auto simp: insert_dish_ingredient_def Let_def split: if_splits)

lemma insert_dish_ingredient_ok:
  "mid \<in> m_id ` set (menu_inventory c) \<Longrightarrow> iid \<in> si_id ` set (stock_inventory c) \<Longrightarrow>
   \<exists>c'. insert_dish_ingredient mid iid qty c = Inr c'"
  by (simp add: insert_dish_ingredient_def Let_def)

lemma create_dish_loop_success:
  "create_dish_loop did ings c = Inr c' \<Longrightarrow>
   (\<exists>new. stock_inventory c' = stock_inventory c @ new \<and>
          (\<forall>r\<in>set new. si_quantity_in_stock r = 0)) \<and>
   menu_inventory c' = menu_inventory c \<and>
   (\<forall>e\<in>set ings. \<exists>row. find (\<lambda>si. si_ingredient_name si = e_name e) (stock_inventory c') = Some row \<and>
                         si_unit row = e_unit e)"
proof (induction ings arbitrary: c)
  case Nil
  then show ?case by simp
next
  case (Cons e ings)
  from Cons.prems obtain i c1 c2 where
    en: "ensure_ingredient_exists c (e_name e) (e_unit e) = Inr (Inr i, c1)" and
    ins: "insert_dish_ingredient did i (e_qty_needed e) c1 = Inr c2" and
    rest: "create_dish_loop did ings c2 = Inr c'"
    by (auto split: if_splits sum.splits prod.splits)
  from ensure_ingredient_exists_found[OF en] obtain new1 row where
    s1: "stock_inventory c1 = stock_inventory c @ new1" "\<forall>r\<in>set new1. si_quantity_in_stock r = 0"
    and m1: "menu_inventory c1 = menu_inventory c"
    and f1: "find (\<lambda>si. si_ingredient_name si = e_name e) (stock_inventory c1) = Some row"
       "si_unit row = e_unit e"
    by blast
  from insert_dish_ingredient_fields[OF ins] have
    s2: "stock_inventory c2 = stock_inventory c1" and m2: "menu_inventory c2 = menu_inventory c1"
    by simp_all
  from Cons.IH[OF rest] obtain new2 where
    s3: "stock_inventory c' = stock_inventory c2 @ new2" "\<forall>r\<in>set new2. si_quantity_in_stock r = 0"
    and m3: "menu_inventory c' = menu_inventory c2"
    and f3: "\<forall>e\<in>set ings. \<exists>row. find (\<lambda>si. si_ingredient_name si = e_name e) (stock_inventory c') = Some row \<and>
                         si_unit row = e_unit e"
    by blast
  have "stock_inventory c' = stock_inventory c @ (new1 @ new2)"
    using s1 s2 s3 by simp
  moreover have "\<forall>r\<in>set (new1 @ new2). si_quantity_in_stock r = 0"
    using s1 s3 by auto
  moreover have "find (\<lambda>si. si_ingredient_name si = e_name e) (stock_inventory c') = Some row"
    using f1 s2 s3 by (simp add: find_prefix)
  ultimately show ?case
    using m1 m2 m3 f1 f3 by (intro conjI exI[of _ "new1 @ new2"]) auto
qed

lemma create_dish_loop_failure:
  "did \<in> m_id ` set (menu_inventory c) \<Longrightarrow>
   \<forall>e\<in>set ings. validate_unit (e_unit e) \<noteq> None \<and> 0 < e_qty_needed e \<Longrightarrow>
   create_dish_loop did ings c = Inl ex \<Longrightarrow> \<exists>n a b. ex = ValueError (Unit_mismatch n a b)"
proof (induction ings arbitrary: c)
  case Nil
  then show ?case by simp
next
  case (Cons e ings)
  from Cons.prems(2) have ok: "validate_unit (e_unit e) \<noteq> None" "\<not> e_qty_needed e \<le> 0"
    and oks: "\<forall>e\<in>set ings. validate_unit (e_unit e) \<noteq> None \<and> 0 < e_qty_needed e"
    by auto
  show ?case
  proof (cases "ensure_ingredient_exists c (e_name e) (e_unit e)")
    case (Inl e')
    then show ?thesis by (simp add: ensure_ingredient_exists_not_raised)
  next
    case (Inr r)
    obtain res c1 where r: "r = (res, c1)" by (cases r)
    show ?thesis
    proof (cases res)
      case (Inl err)
      with Inr r ensure_ingredient_exists_mismatch[of c "e_name e" "e_unit e" err c1]
      obtain a where "err = Unit_mismatch (e_name e) a (e_unit e)" by auto
      with Cons.prems(3) ok Inr r Inl show ?thesis by auto
    next
      case i: (Inr i)
      from ensure_ingredient_exists_found[of c "e_name e" "e_unit e" i c1] Inr r i
      have m1: "menu_inventory c1 = menu_inventory c" and ii: "i \<in> si_id ` set (stock_inventory c1)"
        by auto
      with Cons.prems(1) insert_dish_ingredient_ok[of did c1 i "e_qty_needed e"]
      obtain c2 where ins: "insert_dish_ingredient did i (e_qty_needed e) c1 = Inr c2"
        by auto
      from insert_dish_ingredient_fields[OF ins] m1 Cons.prems(1)
      have did: "did \<in> m_id ` set (menu_inventory c2)" by simp
      from Cons.prems(3) ok Inr r i ins have "create_dish_loop did ings c2 = Inl ex"
        by simp
      from Cons.IH[OF did oks this] show ?thesis .
    qed
  qed
qed

lemma create_dish_body_success:
  assumes "create_dish_body dish_name dish_price ings c = Inr c'"
  shows "(\<exists>new. stock_inventory c' = stock_inventory c @ new \<and>
                (\<forall>r\<in>set new. si_quantity_in_stock r = 0)) \<and>
         (\<forall>e\<in>set ings. \<exists>row. find (\<lambda>si. si_ingredient_name si = e_name e) (stock_inventory c') = Some row \<and>
                         si_unit row = e_unit e)"
proof -
  obtain c1 where c1: "insert_menu dish_name dish_price c = Inr c1"
    using assms
    by (cases "insert_menu dish_name dish_price c") (simp_all add: create_dish_body_def)
  obtain did where loop: "create_dish_loop did ings c1 = Inr c'"
    using assms c1
    by (cases "find (\<lambda>m. m_dish_name m = dish_name) (menu_inventory c1)")
       (simp_all add: create_dish_body_def)
  from c1 have "stock_inventory c1 = stock_inventory c"
    by (auto simp: insert_menu_def Let_def split: if_splits)
  with create_dish_loop_success[OF loop] show ?thesis by simp
qed

lemma create_dish_body_failure:
  assumes "dish_name \<notin> m_dish_name ` set (menu_inventory c)"
    and "\<forall>e\<in>set ings. validate_unit (e_unit e) \<noteq> None \<and> 0 < e_qty_needed e"
    and "create_dish_body dish_name dish_price ings c = Inl ex"
  shows "\<exists>n a b. ex = ValueError (Unit_mismatch n a b)"
proof -
  let ?rid = "next_rowid (seq_menu_inventory c) (map m_id (menu_inventory c))"
  let ?row = "\<lparr>m_id = ?rid, m_dish_name = dish_name, m_dish_price = dish_price\<rparr>"
  let ?c1 = "c\<lparr>menu_inventory := menu_inventory c @ [?row], seq_menu_inventory := ?rid\<rparr>"
  from assms(1) have c1: "insert_menu dish_name dish_price c = Inr ?c1"
    by (simp add: insert_menu_def Let_def)
  from assms(1) have "find (\<lambda>m. m_dish_name m = dish_name) (menu_inventory c) = None"
    by (auto simp: find_None_iff)
  then have f: "find (\<lambda>m. m_dish_name m = dish_name) (menu_inventory ?c1) = Some ?row"
    by (simp add: find_append)
  from assms(3) c1 f have loop: "create_dish_loop ?rid ings ?c1 = Inl ex"
    by (simp add: create_dish_body_def)
  have "?rid \<in> m_id ` set (menu_inventory ?c1)" by simp
  from create_dish_loop_failure[OF this assms(2) loop] show ?thesis .
qed

lemma create_dish_conflict_fails:
  assumes "e \<in> set ings"
    and "find (\<lambda>si. si_ingredient_name si = e_name e) (stock_inventory c) = Some row"
    and "si_unit row \<noteq> e_unit e"
  shows "\<exists>ex. create_dish_body dish_name dish_price ings c = Inl ex"
proof (cases "create_dish_body dish_name dish_price ings c")
  case (Inl ex)
  then show ?thesis by blast
next
  case (Inr c')
  from create_dish_body_success[OF Inr] assms(1) obtain new row' where
    "stock_inventory c' = stock_inventory c @ new"
    "find (\<lambda>si. si_ingredient_name si = e_name e) (stock_inventory c') = Some row'"
    "si_unit row' = e_unit e"
    by blast
  with assms(2,3) show ?thesis by (simp add: find_prefix)
qed

lemma create_dish_outcome:
  "(\<exists>c'. create_dish_body dish_name dish_price ings c = Inr c' \<and> 0 < dish_price \<and>
         create_dish dish_name dish_price ings c = (Inr (True, Dish_created dish_name), c')) \<or>
   (\<exists>m. create_dish dish_name dish_price ings c = (Inr (False, m), c) \<and>
        (dish_price \<le> 0 \<or> (\<exists>ex. create_dish_body dish_name dish_price ings c = Inl ex \<and>
            (ex = IntegrityError \<or> m = str ex))))"
  by (cases "create_dish_body dish_name dish_price ings c")
     (auto simp: create_dish_def split: exn.splits)

lemmas create_dish_eval =
  create_dish_def create_dish_body_def insert_menu_def ensure_ingredient_exists_def
  insert_stock_def insert_dish_ingredient_def next_rowid_def example_db_def Let_def
  validate_unit_g validate_unit_ml validate_unit_kg

lemma example_invalid_unit_run:
  "create_dish ''Cake'' 3 [\<lparr>e_name = ''Flour'', e_qty_needed = 100, e_unit = ''kg''\<rparr>] example_db =
     (Inr (False, Invalid_unit_for ''Flour''), example_db)"
  by (simp add: create_dish_eval)

lemma example_conflict_run:
  "create_dish ''Cake'' 3 example_conflict example_db =
     (Inr (False, Unit_mismatch ''Flour'' ''g'' ''ml''), example_db)"
  by (simp add: create_dish_eval example_conflict_def)

lemma example_vivify_run:
  "create_dish ''Cake'' 3 [\<lparr>e_name = ''Sugar'', e_qty_needed = 50, e_unit = ''g''\<rparr>] example_db =
     (Inr (True, Dish_created ''Cake''),
      example_db\<lparr>stock_inventory :=
        [\<lparr>si_id = 1, si_ingredient_name = ''Flour'', si_quantity_in_stock = 500, si_unit = ''g''\<rparr>,
         \<lparr>si_id = 2, si_ingredient_name = ''Sugar'', si_quantity_in_stock = 0, si_unit = ''g''\<rparr>],
      menu_inventory :=
        [\<lparr>m_id = 1, m_dish_name = ''Bread'', m_dish_price = 5 / 8\<rparr>,
         \<lparr>m_id = 2, m_dish_name = ''Cake'', m_dish_price = 3\<rparr>],
      dish_ingredients :=
        [\<lparr>di_id = 1, di_menu_id = 1, di_ingredient_id = 1, di_quantity_needed = 200\<rparr>,
         \<lparr>di_id = 2, di_menu_id = 2, di_ingredient_id = 2, di_quantity_needed = 50\<rparr>],
      seq_stock_inventory := 2, seq_menu_inventory := 2, seq_dish_ingredients := 2\<rparr>)"
  by (simp add: create_dish_eval)

text \<open>
  C6. As stated, every request whose recipe names an existing ingredient under another
  unit fails with the unit-mismatch error. The checks of \<open>create_dish\<close> run in order,
  and an earlier one reports its own error: Flour exists in grams, the recipe asks for
  Flour in \<open>kg\<close>, and the request fails with the invalid-unit error.
\<close>

theorem unit_conflict_reported_as_invalid_unit:
  "find (\<lambda>si. si_ingredient_name si = ''Flour'') (stock_inventory example_db) =
     Some \<lparr>si_id = 1, si_ingredient_name = ''Flour'', si_quantity_in_stock = 500, si_unit = ''g''\<rparr> \<and>
   ''g'' \<noteq> ''kg'' \<and>
   create_dish ''Cake'' 3 [\<lparr>e_name = ''Flour'', e_qty_needed = 100, e_unit = ''kg''\<rparr>] example_db =
     (Inr (False, Invalid_unit_for ''Flour''), example_db)"
  by (simp add: example_invalid_unit_run) (simp add: example_db_def)

text \<open>
  C6, amended. Every request whose recipe names an existing ingredient under another unit
  fails and leaves the database unchanged: no dish row, no recipe row and no auto-created
  ingredient persists. The failure is the unit-mismatch error when the price is positive,
  the dish name is new and every recipe entry has an allowed unit and a positive
  quantity. When a request succeeds, the stock table is the old one followed by rows of
  zero stock, and every recipe name that was not present is there at zero stock with the
  given unit.
\<close>

theorem create_dish_unit_conflict:
  "(\<forall>e row. e \<in> set ingredients \<and>
       find (\<lambda>si. si_ingredient_name si = e_name e) (stock_inventory conn) = Some row \<and>
       si_unit row \<noteq> e_unit e \<longrightarrow>
       (\<exists>m. create_dish dish_name dish_price ingredients conn = (Inr (False, m), conn)) \<and>
       (0 < dish_price \<and> dish_name \<notin> m_dish_name ` set (menu_inventory conn) \<and>
        (\<forall>e'\<in>set ingredients. validate_unit (e_unit e') \<noteq> None \<and> 0 < e_qty_needed e') \<longrightarrow>
          (\<exists>n a b. create_dish dish_name dish_price ingredients conn =
                     (Inr (False, Unit_mismatch n a b), conn)))) \<and>
   (\<forall>m conn'. create_dish dish_name dish_price ingredients conn = (Inr (True, m), conn') \<longrightarrow>
       (\<exists>new. stock_inventory conn' = stock_inventory conn @ new \<and>
              (\<forall>r\<in>set new. si_quantity_in_stock r = 0)) \<and>
       (\<forall>e\<in>set ingredients. e_name e \<notin> si_ingredient_name ` set (stock_inventory conn) \<longrightarrow>
          (\<exists>r\<in>set (stock_inventory conn'). si_ingredient_name r = e_name e \<and>
              si_quantity_in_stock r = 0 \<and> si_unit r = e_unit e)))"
proof (intro conjI allI impI ballI)
  fix e row
  assume h: "e \<in> set ingredients \<and>
       find (\<lambda>si. si_ingredient_name si = e_name e) (stock_inventory conn) = Some row \<and>
       si_unit row \<noteq> e_unit e"
  then obtain ex where ex: "create_dish_body dish_name dish_price ingredients conn = Inl ex"
    using create_dish_conflict_fails[of e ingredients conn row dish_name dish_price] by blast
  with create_dish_outcome[of dish_name dish_price ingredients conn]
  show "\<exists>m. create_dish dish_name dish_price ingredients conn = (Inr (False, m), conn)"
    by auto
  assume v: "0 < dish_price \<and> dish_name \<notin> m_dish_name ` set (menu_inventory conn) \<and>
        (\<forall>e'\<in>set ingredients. validate_unit (e_unit e') \<noteq> None \<and> 0 < e_qty_needed e')"
  with create_dish_body_failure[OF _ _ ex] obtain n a b where
    "ex = ValueError (Unit_mismatch n a b)" by blast
  with ex v show "\<exists>n a b. create_dish dish_name dish_price ingredients conn =
                     (Inr (False, Unit_mismatch n a b), conn)"
    by (simp add: create_dish_def)
next
  fix m conn'
  assume run: "create_dish dish_name dish_price ingredients conn = (Inr (True, m), conn')"
  with create_dish_outcome[of dish_name dish_price ingredients conn]
  have body: "create_dish_body dish_name dish_price ingredients conn = Inr conn'"
    by auto
  from create_dish_body_success[OF body] obtain new where
    new: "stock_inventory conn' = stock_inventory conn @ new"
      "\<forall>r\<in>set new. si_quantity_in_stock r = 0" and
    found: "\<forall>e\<in>set ingredients. \<exists>row.
        find (\<lambda>si. si_ingredient_name si = e_name e) (stock_inventory conn') = Some row \<and>
        si_unit row = e_unit e"
    by blast
  from new show "\<exists>new. stock_inventory conn' = stock_inventory conn @ new \<and>
              (\<forall>r\<in>set new. si_quantity_in_stock r = 0)"
    by blast
  fix e
  assume e: "e \<in> set ingredients"
    and fresh: "e_name e \<notin> si_ingredient_name ` set (stock_inventory conn)"
  from found e obtain row where
    row: "find (\<lambda>si. si_ingredient_name si = e_name e) (stock_inventory conn') = Some row"
      "si_unit row = e_unit e"
    by blast
  from find_SomeD[OF row(1)] have mem: "row \<in> set (stock_inventory conn')"
    and name: "si_ingredient_name row = e_name e" by simp_all
  from name fresh have "row \<notin> set (stock_inventory conn)"
    by (metis imageI)
  with mem new have "row \<in> set new" by simp
  with new have "si_quantity_in_stock row = 0" by blast
  with mem name row show "\<exists>r\<in>set (stock_inventory conn'). si_ingredient_name r = e_name e \<and>
              si_quantity_in_stock r = 0 \<and> si_unit r = e_unit e"
    by blast
qed

theorem create_dish_unit_conflict_witness:
  "find (\<lambda>si. si_ingredient_name si = ''Flour'') (stock_inventory example_db) =
     Some \<lparr>si_id = 1, si_ingredient_name = ''Flour'', si_quantity_in_stock = 500, si_unit = ''g''\<rparr> \<and>
   ''g'' \<noteq> ''ml'' \<and>
   create_dish ''Cake'' 3 example_conflict example_db =
     (Inr (False, Unit_mismatch ''Flour'' ''g'' ''ml''), example_db) \<and>
   fst (create_dish ''Cake'' 3 [\<lparr>e_name = ''Sugar'', e_qty_needed = 50, e_unit = ''g''\<rparr>] example_db) =
     Inr (True, Dish_created ''Cake'') \<and>
   map (\<lambda>r. (si_ingredient_name r, si_quantity_in_stock r, si_unit r))
     (stock_inventory (snd (create_dish ''Cake'' 3
        [\<lparr>e_name = ''Sugar'', e_qty_needed = 50, e_unit = ''g''\<rparr>] example_db))) =
     [(''Flour'', 500, ''g''), (''Sugar'', 0, ''g'')]"
proof -
  let ?e = "\<lparr>e_name = ''Flour'', e_qty_needed = 100, e_unit = ''ml''\<rparr>"
  let ?row = "\<lparr>si_id = 1, si_ingredient_name = ''Flour'', si_quantity_in_stock = 500, si_unit = ''g''\<rparr>"
  have f: "find (\<lambda>si. si_ingredient_name si = ''Flour'') (stock_inventory example_db) = Some ?row"
    by (simp add: example_db_def)
  have h: "?e \<in> set example_conflict \<and>
       find (\<lambda>si. si_ingredient_name si = e_name ?e) (stock_inventory example_db) = Some ?row \<and>
       si_unit ?row \<noteq> e_unit ?e"
    using f by (simp add: example_conflict_def)
  have "\<exists>m. create_dish ''Cake'' 3 example_conflict example_db = (Inr (False, m), example_db)"
    using create_dish_unit_conflict[of example_conflict example_db "''Cake''" 3,
        THEN conjunct1, THEN spec, THEN spec, THEN mp, OF h]
    by (rule conjunct1)
  then show ?thesis
    using f by (simp add: example_conflict_run example_vivify_run)
qed

section \<open>The CSV export\<close>

lemma filter_unique_key:
  "distinct (map f xs) \<Longrightarrow> x \<in> set xs \<Longrightarrow>
   filter (\<lambda>y. f y = f x) xs = [x] \<and> find (\<lambda>y. f y = f x) xs = Some x"
proof (induction xs)
  case Nil
  then show ?case by simp
next
  case (Cons a xs)
  show ?case
  proof (cases "a = x")
    case True
    with Cons.prems have "f x \<notin> f ` set xs" by simp
    then have "\<forall>y\<in>set xs. f y \<noteq> f x" by (metis imageI)
    then have "filter (\<lambda>y. f y = f x) xs = []" by (simp add: filter_empty_conv)
    with True show ?thesis by simp
  next
    case False
    with Cons.prems have x: "x \<in> set xs" and "f a \<noteq> f x" by auto
    with Cons.IH Cons.prems show ?thesis by simp
  qed
qed

lemma sum_list_single_key:
  "distinct (map f xs) \<Longrightarrow>
   sum_list (map (\<lambda>r. if k = f r then A else ({#} :: 'a multiset)) xs) =
     (if k \<in> f ` set xs then A else {#})"
  by (induction xs) auto

lemma sum_list_filter_by_key:
  assumes "distinct (map f ords)" and "\<forall>oi\<in>set items. g oi \<in> f ` set ords"
  shows "sum_list (map (\<lambda>r. mset (map C (filter (\<lambda>oi. g oi = f r) items))) ords) =
         mset (map C items)"
  using assms(2)
proof (induction items)
  case Nil
  then show ?case by (induction ords) simp_all
next
  case (Cons oi items)
  have "sum_list (map (\<lambda>r. mset (map C (filter (\<lambda>oi. g oi = f r) (oi # items)))) ords) =
        sum_list (map (\<lambda>r. (if g oi = f r then {#C oi#} else {#}) +
                            mset (map C (filter (\<lambda>oi. g oi = f r) items))) ords)"
    by (intro arg_cong[where f = sum_list] map_cong) auto
  also have "\<dots> = sum_list (map (\<lambda>r. if g oi = f r then {#C oi#} else {#}) ords) +
                   sum_list (map (\<lambda>r. mset (map C (filter (\<lambda>oi. g oi = f r) items))) ords)"
    by (simp add: sum_list_addf)
  also have "sum_list (map (\<lambda>r. if g oi = f r then {#C oi#} else {#}) ords) = {#C oi#}"
    using sum_list_single_key[OF assms(1), of "g oi" "{#C oi#}"] Cons.prems by simp
  also have "sum_list (map (\<lambda>r. mset (map C (filter (\<lambda>oi. g oi = f r) items))) ords) =
             mset (map C items)"
    using Cons by simp
  finally show ?case by simp
qed

lemma select_items_integrity:
  assumes "db_integrity conn"
  shows "select_items conn oid =
           map (\<lambda>oi. \<lparr>iv_quantity = oi_quantity oi, iv_line_price = oi_line_price oi,
                       iv_dish_name = m_dish_name (dish_of conn oi)\<rparr>)
               (filter (\<lambda>oi. oi_order_id oi = oid) (order_items conn))"
proof -
  have one: "filter (\<lambda>m. m_id m = oi_dish_id oi) (menu_inventory conn) = [dish_of conn oi]"
    if "oi \<in> set (order_items conn)" for oi
  proof -
    from that assms obtain m where m: "m \<in> set (menu_inventory conn)" "m_id m = oi_dish_id oi"
      by (auto simp: db_integrity_def)
    from assms have "distinct (map m_id (menu_inventory conn))" by (simp add: db_integrity_def)
    from filter_unique_key[OF this m(1)] m(2) show ?thesis
      by (simp add: dish_of_def)
  qed
  have "select_items conn oid =
        concat (map (\<lambda>oi. [\<lparr>iv_quantity = oi_quantity oi, iv_line_price = oi_line_price oi,
                             iv_dish_name = m_dish_name (dish_of conn oi)\<rparr>])
                    (filter (\<lambda>oi. oi_order_id oi = oid) (order_items conn)))"
    unfolding select_items_def
    by (intro arg_cong[where f = concat] map_cong) (simp_all add: one)
  then show ?thesis by (simp add: concat_map_singleton)
qed

lemma export_rows_integrity:
  assumes "db_integrity conn"
  shows "snd (export_orders_csv ev conn) =
           concat (map (\<lambda>r. map (csv_row_of ev conn)
                                (filter (\<lambda>oi. oi_order_id oi = o_id r) (order_items conn)))
                       (rev (sort_key o_order_date (orders conn))))"
proof -
  have ord: "order_of conn oi = r"
    if "r \<in> set (orders conn)" "oi_order_id oi = o_id r" for r oi
  proof -
    from assms have "distinct (map o_id (orders conn))" by (simp add: db_integrity_def)
    from filter_unique_key[OF this that(1)] that(2) show ?thesis
      by (simp add: order_of_def)
  qed
  show ?thesis
    unfolding export_orders_csv_def fetch_orders_unfiltered snd_conv map_map
    by (intro arg_cong[where f = concat] map_cong)
       (auto simp: select_items_integrity[OF assms] csv_row_of_def ord o_def)
qed

lemma export_rows_mset:
  assumes "db_integrity conn"
  shows "mset (snd (export_orders_csv ev conn)) =
           image_mset (csv_row_of ev conn) (mset (order_items conn))"
proof -
  let ?sorted = "rev (sort_key o_order_date (orders conn))"
  have m: "mset ?sorted = mset (orders conn)" by simp
  have d: "distinct (map o_id ?sorted)"
  proof -
    have "mset (map o_id ?sorted) = mset (map o_id (orders conn))"
      using m by (metis mset_map)
    moreover from assms have "distinct (map o_id (orders conn))" by (simp add: db_integrity_def)
    ultimately show ?thesis by (metis mset_eq_imp_distinct_iff)
  qed
  have r: "\<forall>oi\<in>set (order_items conn). oi_order_id oi \<in> o_id ` set ?sorted"
    using assms by (simp add: db_integrity_def)
  have "mset (snd (export_orders_csv ev conn)) =
        sum_list (map (\<lambda>r. mset (map (csv_row_of ev conn)
                     (filter (\<lambda>oi. oi_order_id oi = o_id r) (order_items conn)))) ?sorted)"
    unfolding export_rows_integrity[OF assms] by (simp add: mset_concat o_def)
  also have "\<dots> = mset (map (csv_row_of ev conn) (order_items conn))"
    by (rule sum_list_filter_by_key[OF d r])
  finally show ?thesis by simp
qed

lemma order_of_same_id: "oi_order_id a = oi_order_id b \<Longrightarrow> order_of conn a = order_of conn b"
  by (simp add: order_of_def)

lemma example_export:
  "snd (export_orders_csv example_env example_ordered_db) =
     [\<lparr>c_order_id = 1, c_order_date = ''2026-01-01'', c_dish_name = ''Bread'', c_qty = 1,
       c_line_price = 5 / 8, c_subtotal = 5 / 8, c_vat_rate = vatRate, c_vat_amount = 1 / 8,
       c_total = 3 / 4\<rparr>]"
  by (simp add: export_orders_csv_def fetch_orders_def select_items_def truthy_def
      example_ordered_db_def example_db_def example_env_def example_now_def Let_def)

lemma example_integrity: "db_integrity example_ordered_db"
  by (simp add: db_integrity_def example_ordered_db_def example_db_def)

text \<open>
  C9. In a database that satisfies the keys of the schema, the rows of the CSV export are,
  as a multiset, the rows \<open>csv_row_of\<close> of the stored order items: one row per item,
  carrying the order id, quantity and line price of the item, the name of its dish, and
  the date, subtotal, VAT rate, VAT amount and total of its order. Two exported rows with
  the same order id agree on all the values taken from the order.
\<close>

theorem csv_export_rows:
  assumes "db_integrity conn"
  shows "fst (export_orders_csv ev conn) = csv_header \<and>
         mset (snd (export_orders_csv ev conn)) =
           image_mset (csv_row_of ev conn) (mset (order_items conn)) \<and>
         (\<forall>r1\<in>set (snd (export_orders_csv ev conn)).
          \<forall>r2\<in>set (snd (export_orders_csv ev conn)).
            c_order_id r1 = c_order_id r2 \<longrightarrow>
            c_order_date r1 = c_order_date r2 \<and> c_subtotal r1 = c_subtotal r2 \<and>
            c_vat_rate r1 = c_vat_rate r2 \<and> c_vat_amount r1 = c_vat_amount r2 \<and>
            c_total r1 = c_total r2)"
proof (intro conjI ballI impI)
  show "fst (export_orders_csv ev conn) = csv_header"
    by (simp add: export_orders_csv_def)
  show eq: "mset (snd (export_orders_csv ev conn)) =
           image_mset (csv_row_of ev conn) (mset (order_items conn))"
    using assms by (rule export_rows_mset)
  fix r1 r2
  assume "r1 \<in> set (snd (export_orders_csv ev conn))" "r2 \<in> set (snd (export_orders_csv ev conn))"
  then have "r1 \<in># image_mset (csv_row_of ev conn) (mset (order_items conn))"
    "r2 \<in># image_mset (csv_row_of ev conn) (mset (order_items conn))"
    using eq by (metis set_mset_mset)+
  then obtain a b where ab: "r1 = csv_row_of ev conn a" "r2 = csv_row_of ev conn b"
    by auto
  assume "c_order_id r1 = c_order_id r2"
  with ab have "oi_order_id a = oi_order_id b" by (simp add: csv_row_of_def)
  then have o: "order_of conn a = order_of conn b" by (rule order_of_same_id)
  from ab o show "c_order_date r1 = c_order_date r2" "c_subtotal r1 = c_subtotal r2"
    "c_vat_rate r1 = c_vat_rate r2" "c_vat_amount r1 = c_vat_amount r2" "c_total r1 = c_total r2"
    by (simp_all add: csv_row_of_def)
qed

theorem csv_export_rows_witness:
  "map o_id (orders example_ordered_db) = [1] \<and>
   map m_id (menu_inventory example_ordered_db) = [1] \<and>
   map (\<lambda>oi. (oi_order_id oi, oi_dish_id oi)) (order_items example_ordered_db) = [(1, 1)] \<and>
   snd (export_orders_csv example_env example_ordered_db) =
     [\<lparr>c_order_id = 1, c_order_date = ''2026-01-01'', c_dish_name = ''Bread'', c_qty = 1,
       c_line_price = 5 / 8, c_subtotal = 5 / 8, c_vat_rate = vatRate, c_vat_amount = 1 / 8,
       c_total = 3 / 4\<rparr>] \<and>
   size (mset (snd (export_orders_csv example_env example_ordered_db))) =
     length (order_items example_ordered_db)"
proof -
  have "mset (snd (export_orders_csv example_env example_ordered_db)) =
          image_mset (csv_row_of example_env example_ordered_db)
            (mset (order_items example_ordered_db))"
    using csv_export_rows[OF example_integrity, of example_env, THEN conjunct2] by (rule conjunct1)
  then have "size (mset (snd (export_orders_csv example_env example_ordered_db))) =
               length (order_items example_ordered_db)"
    by simp
  then show ?thesis
    by (simp add: example_export) (simp add: example_ordered_db_def example_db_def)
qed

end
